theory Spec2Isabelle
  imports Main "HOL-Library.Sublist"
begin

section \<open>Common string helpers\<close>

text \<open>
  JavaScript strings are modelled as \<open>string\<close> (a list of 8-bit characters, that is the
  UTF-8 bytes of the text). Every pattern the program looks for is ASCII, and an ASCII
  byte never occurs inside a multi-byte UTF-8 sequence, so \<open>endsWith\<close> and substring
  search over bytes agree with the same operations over UTF-16 code units.
\<close>

definition dq :: char where
  "dq = CHR 0x22"

definition nl :: char where
  "nl = CHR 0x0A"

text \<open>\<open>String.prototype.endsWith\<close>.\<close>

definition endsWith :: "string \<Rightarrow> string \<Rightarrow> bool" where
  "endsWith s suf = suffix suf s"

text \<open>\<open>s.match(/lit/)\<close> for a pattern \<open>lit\<close> without metacharacters: truthy exactly when
  \<open>lit\<close> occurs somewhere in \<open>s\<close>.\<close>

fun contains :: "string \<Rightarrow> string \<Rightarrow> bool" where
  "contains pat [] = (pat = [])"
| "contains pat (c # cs) = (prefix pat (c # cs) \<or> contains pat cs)"

text \<open>\<open>Array.prototype.join(sep)\<close> on an array of strings.\<close>

fun joinWith :: "string \<Rightarrow> string list \<Rightarrow> string" where
  "joinWith sep [] = []"
| "joinWith sep [x] = x"
| "joinWith sep (x # y # ys) = x @ sep @ joinWith sep (y # ys)"

text \<open>Interpolation \<open>${v}\<close> of a value that is a string or absent: an absent property reads
  as \<open>undefined\<close> and is rendered as the text \<open>undefined\<close>.\<close>

definition tpl :: "string option \<Rightarrow> string" where
  "tpl v = (case v of None \<Rightarrow> ''undefined'' | Some s \<Rightarrow> s)"

section \<open>The issue filer (src/unnamed/part_001)\<close>

text \<open>
  The per-specification value the filer receives from \<open>studyBackrefs\<close>. The filer reads the
  properties \<open>shortname\<close>, \<open>title\<close>, \<open>repo\<close>, \<open>crawled\<close> and \<open>brokenLinks\<close>; each may be absent
  (\<open>None\<close>). Any further property of the object lives in the record's extension part.
\<close>

record specResult =
  shortname :: "string option"
  title :: "string option"
  repo :: "string option"
  crawled :: "string option"
  brokenLinks :: "string list option"

text \<open>What one callback of the \<open>forEach\<close> does to the outside world, in program order.\<close>

datatype effect =
    ConsoleError string
  | ConsoleLog string
  | WriteFile string string
  | ExecSync string

text \<open>
  The environment of the filer: \<open>path.join\<close> (a Node built-in, taken as a parameter),
  the outcome of \<open>fs.stat(f)\<close> (\<open>None\<close>: the promise rejects; \<open>Some b\<close>: it resolves and
  \<open>isFile()\<close> is \<open>b\<close>), and whether \<open>fs.writeFile\<close> and \<open>execSync\<close> succeed (when they
  throw, the callback's promise rejects and the rest of the callback does not run).
\<close>

record filerEnv =
  pathJoin :: "string list \<Rightarrow> string"
  stat :: "string \<Rightarrow> bool option"
  writeFileOk :: "string \<Rightarrow> bool"
  execSyncOk :: "string \<Rightarrow> bool"

text \<open>Line 47: \<open>/w3\.org\/TR\//\<close>.\<close>

definition matchesTR :: "string \<Rightarrow> bool" where
  "matchesTR u = contains ''w3.org/TR/'' u"

text \<open>Line 47: \<open>specResult.brokenLinks?.filter(u => !u.match(/w3\.org\/TR\//)) || []\<close>.
  An array is always truthy, so \<open>|| []\<close> applies only when \<open>brokenLinks\<close> is absent.\<close>

definition keptBrokenLinks :: "'a specResult_scheme \<Rightarrow> string list" where
  "keptBrokenLinks r =
     (case brokenLinks r of
        None \<Rightarrow> []
      | Some ls \<Rightarrow> filter (\<lambda>u. \<not> matchesTR u) ls)"

text \<open>Lines 76-84: the template literal (it starts with a line break).\<close>

definition issueReport :: "'a specResult_scheme \<Rightarrow> string list \<Rightarrow> string" where
  "issueReport r links =
     [nl] @ ''Repo: '' @ tpl (repo r) @ [nl] @
     ''Tracked: N/A'' @ [nl] @
     ''Issue title: Broken references in '' @ tpl (title r) @ [nl] @
     ''---'' @ [nl] @
     ''While crawling ['' @ tpl (title r) @ '']('' @ tpl (crawled r) @
       ''), the following links to other specifications were detected as pointing to non-existing anchors, which should be fixed:'' @ [nl] @
     joinWith [nl] (map (\<lambda>link. ''* [ ] '' @ link) links) @ [nl] @
     [nl] @
     ''This issue was detected and reported semi-automatically by [strudy](https://github.com/w3c/strudy/) based on data collected in [webref](https://github.com/w3c/webref/).''"

text \<open>A run of \<open>execSync\<close> calls: the first one that throws ends the callback.\<close>

fun execAll :: "(string \<Rightarrow> bool) \<Rightarrow> string list \<Rightarrow> effect list" where
  "execAll ok [] = []"
| "execAll ok (c # cs) = ExecSync c # (if ok c then execAll ok cs else [])"

text \<open>Lines 62-68: \<open>{data: []} || (await octokit...)\<close>. The left operand is an object, hence
  truthy, so the list of pull requests is always empty and GitHub is never asked.\<close>

definition pullrequests :: "string list" where
  "pullrequests = []"

text \<open>Lines 49-51: the moniker of the issue and the file that holds its draft.\<close>

definition issueMoniker :: "'a specResult_scheme \<Rightarrow> string" where
  "issueMoniker specRes = tpl (shortname specRes) @ ''-brokenlinks''"

definition issueFilename :: "filerEnv \<Rightarrow> 'a specResult_scheme \<Rightarrow> string" where
  "issueFilename env specRes = pathJoin env [''issues/'', issueMoniker specRes @ ''.md'']"

text \<open>Lines 45-90: the body of the callback for one specification.\<close>

definition fileIssue :: "filerEnv \<Rightarrow> string \<Rightarrow> 'a specResult_scheme \<Rightarrow> effect list" where
  "fileIssue env currentBranch specRes =
     (let links = keptBrokenLinks specRes in
      if length links = 0 then []
      else
        case stat env (issueFilename env specRes) of
          Some isFile \<Rightarrow>
            (if \<not> isFile
             then [ConsoleError (issueFilename env specRes @ '' already exists but is not a file'')]
             else [ConsoleLog (issueFilename env specRes @ '' already exists, bailing'')])
        | None \<Rightarrow>
            if length pullrequests > 0
            then [ConsoleLog ''[]'',
                  ConsoleLog (''A pull request from branch '' @ issueMoniker specRes @ '' already exists, bailing'')]
            else
              WriteFile (issueFilename env specRes) (issueReport specRes links) #
              (if writeFileOk env (issueFilename env specRes)
               then execAll (execSyncOk env)
                      [''git checkout -b '' @ issueMoniker specRes,
                       ''git add '' @ issueFilename env specRes,
                       ''git commit -m '' @ [dq] @ ''File report on broken links found in '' @
                         tpl (title specRes) @ [dq],
                       ''git checkout '' @ currentBranch]
               else []))"

text \<open>An effect that changes the file system or the git repository.\<close>

fun mutates :: "effect \<Rightarrow> bool" where
  "mutates (WriteFile f c) = True"
| "mutates (ExecSync c) = True"
| "mutates (ConsoleError m) = False"
| "mutates (ConsoleLog m) = False"

text \<open>
  Line 44: \<open>Object.keys(results).slice(0,2).forEach(async uri => ...)\<close>. The study result is
  an object; it is modelled as the list of its (key, value) pairs in \<open>Object.keys\<close> order.
  The callbacks are asynchronous and interleave at their \<open>await\<close>s, so the pass is modelled
  as the list of the effect sequences of the callbacks it starts, one per key visited.
\<close>

definition issuePass ::
  "filerEnv \<Rightarrow> string \<Rightarrow> (string \<times> 'a specResult_scheme) list \<Rightarrow> (string \<times> effect list) list" where
  "issuePass env currentBranch results =
     map (\<lambda>uri. (uri, case map_of results uri of
                        None \<Rightarrow> []
                      | Some specRes \<Rightarrow> fileIssue env currentBranch specRes))
         (take 2 (map fst results))"

text \<open>Lines 34-39: \<open>Target the index file if needed\<close>.\<close>

definition targetIndexFile :: "(string list \<Rightarrow> string) \<Rightarrow> string \<Rightarrow> string" where
  "targetIndexFile join p =
     (if \<not> endsWith p ''index.json'' then join [p, ''index.json''] else p)"

section \<open>The command-line program (src/strudy.js)\<close>

subsection \<open>The file system\<close>

text \<open>
  The file system as the program observes it during one run: a path leads to a regular file
  with its bytes, to a directory, or to nothing the process can read (\<open>None\<close>).
\<close>

datatype entry = RegFile string | Directory

type_synonym filesys = "string \<Rightarrow> entry option"

text \<open>Lines 41-49: \<open>fs.access(file, R_OK)\<close> succeeds or throws.\<close>

definition exists :: "filesys \<Rightarrow> string \<Rightarrow> bool" where
  "exists fs file = (fs file \<noteq> None)"

subsection \<open>\<open>Buffer.toString()\<close>: UTF-8 decoding\<close>

text \<open>
  \<open>buff.toString()\<close> decodes the bytes as UTF-8 into UTF-16 code units; an ill-formed
  sequence yields U+FFFD and decoding resumes at the offending byte. The decoder is the
  usual state machine: either no sequence is open, or one is, with the code point read
  so far, the number of continuation bytes still needed and the range allowed for the
  next byte.
\<close>

datatype decoderState = Idle | Pending nat nat nat nat

definition toUnits :: "nat \<Rightarrow> nat list" where
  "toUnits cp =
     (if cp < 0x10000 then [cp]
      else [0xD800 + (cp - 0x10000) div 0x400, 0xDC00 + (cp - 0x10000) mod 0x400])"

definition startByte :: "nat \<Rightarrow> nat list \<times> decoderState" where
  "startByte x =
     (if x < 0x80 then ([x], Idle)
      else if 0xC2 \<le> x \<and> x \<le> 0xDF then ([], Pending (x - 0xC0) 1 0x80 0xBF)
      else if 0xE0 \<le> x \<and> x \<le> 0xEF then
        ([], Pending (x - 0xE0) 2 (if x = 0xE0 then 0xA0 else 0x80) (if x = 0xED then 0x9F else 0xBF))
      else if 0xF0 \<le> x \<and> x \<le> 0xF4 then
        ([], Pending (x - 0xF0) 3 (if x = 0xF0 then 0x90 else 0x80) (if x = 0xF4 then 0x8F else 0xBF))
      else ([0xFFFD], Idle))"

fun decodeByte :: "decoderState \<Rightarrow> nat \<Rightarrow> nat list \<times> decoderState" where
  "decodeByte Idle x = startByte x"
| "decodeByte (Pending cp needed lower upper) x =
     (if \<not> (lower \<le> x \<and> x \<le> upper)
      then (0xFFFD # fst (startByte x), snd (startByte x))
      else
        let cp' = cp * 0x40 + (x - 0x80) in
        if needed = 1 then (toUnits cp', Idle)
        else ([], Pending cp' (needed - 1) 0x80 0xBF))"

fun decodeFrom :: "decoderState \<Rightarrow> string \<Rightarrow> nat list" where
  "decodeFrom st [] = (case st of Idle \<Rightarrow> [] | Pending cp needed lower upper \<Rightarrow> [0xFFFD])"
| "decodeFrom st (b # bs) =
     (case decodeByte st (of_char b) of (out, st') \<Rightarrow> out @ decodeFrom st' bs)"

definition utf8Decode :: "string \<Rightarrow> nat list" where
  "utf8Decode bs = decodeFrom Idle bs"

subsection \<open>The regular expression \<open>/"type"\s*:\s*"study"/\<close>\<close>

text \<open>The code units of an ASCII literal.\<close>

definition codeUnits :: "string \<Rightarrow> nat list" where
  "codeUnits s = map of_char s"

text \<open>The class \<open>\s\<close> of ECMAScript: WhiteSpace and LineTerminator.\<close>

definition isWhiteSpace :: "nat \<Rightarrow> bool" where
  "isWhiteSpace u \<longleftrightarrow>
     (0x09 \<le> u \<and> u \<le> 0x0D) \<or> u = 0x20 \<or> u = 0xA0 \<or> u = 0x1680 \<or>
     (0x2000 \<le> u \<and> u \<le> 0x200A) \<or> u = 0x2028 \<or> u = 0x2029 \<or> u = 0x202F \<or>
     u = 0x205F \<or> u = 0x3000 \<or> u = 0xFEFF"

fun stripPrefix :: "nat list \<Rightarrow> nat list \<Rightarrow> nat list option" where
  "stripPrefix [] s = Some s"
| "stripPrefix (p # ps) [] = None"
| "stripPrefix (p # ps) (c # cs) = (if p = c then stripPrefix ps cs else None)"

text \<open>
  A match starting at the head of \<open>s\<close>. Neither \<open>:\<close> nor \<open>"\<close> is white space, so the
  greedy \<open>\s*\<close> never has to give a character back.
\<close>

definition matchHere :: "nat list \<Rightarrow> bool" where
  "matchHere s =
     (case stripPrefix (codeUnits (dq # ''type'' @ [dq])) s of
        None \<Rightarrow> False
      | Some r1 \<Rightarrow>
          (case dropWhile isWhiteSpace r1 of
             [] \<Rightarrow> False
           | c # r2 \<Rightarrow>
               c = of_char CHR '':'' \<and>
               prefix (codeUnits (dq # ''study'' @ [dq])) (dropWhile isWhiteSpace r2)))"

text \<open>\<open>str.match(re)\<close> is truthy when the pattern matches at some position.\<close>

fun regexSearch :: "nat list \<Rightarrow> bool" where
  "regexSearch [] = matchHere []"
| "regexSearch (c # cs) = (matchHere (c # cs) \<or> regexSearch cs)"

subsection \<open>\<open>isStudyReport\<close>\<close>

text \<open>What the function returns when its promise resolves.\<close>

datatype jsval = JTrue | JFalse | JUndefined

definition truthy :: "jsval \<Rightarrow> bool" where
  "truthy v = (v = JTrue)"

text \<open>
  Lines 52-68. \<open>fs.open\<close> is outside the \<open>try\<close>: when it throws, the promise rejects
  (\<open>None\<close>). The buffer has 1024 zero bytes, of which \<open>fd.read\<close> overwrites as many as the
  file has, up to 1024. Reading from a directory throws inside the \<open>try\<close>, and the
  \<open>catch\<close> returns \<open>false\<close>. When the pattern does not match, the function returns nothing.
\<close>

definition isStudyReport :: "filesys \<Rightarrow> string \<Rightarrow> jsval option" where
  "isStudyReport fs file =
     (case fs file of
        None \<Rightarrow> None
      | Some Directory \<Rightarrow> Some JFalse
      | Some (RegFile content) \<Rightarrow>
          (let buff = take 1024 content @ replicate (1024 - length content) (CHR 0x00);
               str = utf8Decode buff
           in if regexSearch str then Some JTrue else Some JUndefined))"

subsection \<open>Notions used to state the properties of the sniffing\<close>

text \<open>
  A text the regular expression matches in full: \<open>"type"\<close>, white space, a colon, white
  space, \<open>"study"\<close>.
\<close>

definition isMarker :: "nat list \<Rightarrow> bool" where
  "isMarker m \<longleftrightarrow>
     (\<exists>ws1 ws2.
        (\<forall>u \<in> set ws1. isWhiteSpace u) \<and> (\<forall>u \<in> set ws2. isWhiteSpace u) \<and>
        m = codeUnits (dq # ''type'' @ [dq]) @ ws1 @ [of_char CHR '':''] @ ws2 @
            codeUnits (dq # ''study'' @ [dq]))"

text \<open>The bytes of \<open>content\<close> hold such a text, all of it within the first \<open>n\<close> bytes.\<close>

definition markerWithin :: "nat \<Rightarrow> string \<Rightarrow> bool" where
  "markerWithin n content \<longleftrightarrow>
     (\<exists>pre m post. content = pre @ m @ post \<and> length (pre @ m) \<le> n \<and> isMarker (utf8Decode m))"

text \<open>
  The states the decoder can be in: a sequence that is open needs at least one more byte,
  accepts continuation bytes only, and cannot end in a code point below U+0080.
\<close>

definition okState :: "decoderState \<Rightarrow> bool" where
  "okState st =
     (case st of
        Idle \<Rightarrow> True
      | Pending cp needed lower upper \<Rightarrow>
          1 \<le> needed \<and> 0x80 \<le> lower \<and>
          0x80 \<le> cp * 0x40 ^ needed + (lower - 0x80) * 0x40 ^ (needed - 1))"

subsection \<open>The action of the command\<close>

text \<open>The options as \<open>commander\<close> hands them over; a flag is \<open>true\<close> or absent.\<close>

record options =
  format :: "string option"
  diff :: "string option"
  spec :: "string list option"
  dep :: bool
  onlynew :: bool
  perissue :: bool
  tr :: "string option"

text \<open>Truthiness of a value that is a string or absent: the empty string is falsy.\<close>

definition truthyStr :: "string option \<Rightarrow> bool" where
  "truthyStr v = (case v of None \<Rightarrow> False | Some s \<Rightarrow> s \<noteq> [])"

text \<open>The option objects passed to \<open>studyCrawl\<close> and to \<open>generateReport\<close>
  (the property \<open>include\<close> is written \<open>include'\<close>: the plain name is reserved).\<close>

record studyOptions =
  include' :: "string list option"
  trResults :: "string option"

datatype generateOptions =
    ReportOptions (depReport: bool) (diffReport: bool) (refStudyFile: "string option") (onlyNew: bool)
  | MarkdownOptions (perSpec: bool)

text \<open>
  The functions the action calls that are not part of this file: \<open>path.join\<close> and
  \<open>__dirname\<close> of Node, \<open>JSON.stringify(study, null, 2)\<close>, \<open>node-pandoc\<close>, and the
  library functions of the repository. A call of an asynchronous one may reject (\<open>None\<close>);
  \<open>requireFromWorkingDirectory\<close> returns a study or a falsy value (\<open>None\<close>).
\<close>

record 's externals =
  path_join :: "string list \<Rightarrow> string"
  dirname :: string
  requireFromWorkingDirectory :: "string \<Rightarrow> 's option"
  studyCrawl :: "string \<Rightarrow> studyOptions \<Rightarrow> 's option"
  generateReport :: "'s \<Rightarrow> generateOptions \<Rightarrow> string option"
  pandoc :: "string \<Rightarrow> string list \<Rightarrow> string option"
  stringify :: "'s \<Rightarrow> string"

text \<open>What a run does, in order, and how it ends.\<close>

datatype 's event =
    ErrorMsg string
  | LogMsg string
  | CallIsStudyReport string
  | CallRequire string
  | CallStudyCrawl string studyOptions
  | CallGenerateReport 's generateOptions
  | CallPandoc string "string list"

datatype status = Exit nat | Completed | Rejected

text \<open>Lines 166-187: the checks on the options; the first that fails prints its message
  and the process exits with code 2.\<close>

definition checkOptions :: "options \<Rightarrow> string option" where
  "checkOptions opts =
     (if truthyStr (format opts) \<and> format opts \<notin> set [Some ''json'', Some ''markdown'', Some ''html'']
      then Some (''Unsupported --format option '' @ [dq] @ tpl (format opts) @ [dq] @ ''.'' @ [nl] @
                 ''Format must be one of '' @ [dq] @ ''json'' @ [dq] @ '', '' @ [dq] @ ''markdown'' @ [dq] @
                 '' or '' @ [dq] @ ''html'' @ [dq] @ ''.'')
      else if truthyStr (diff opts) \<and> truthyStr (format opts) \<and> format opts \<noteq> Some ''markdown''
      then Some (''Diff reports are always in markdown.'' @ [nl] @
                 ''The --format option can only be set to '' @ [dq] @ ''markdown'' @ [dq] @ '' when --diff is used.'')
      else if truthyStr (diff opts) \<and> perissue opts
      then Some ''The --diff and --perissue options cannot both be set.''
      else if perissue opts \<and> format opts \<notin> set [Some ''markdown'', Some ''html'']
      then Some (''The --format option must be '' @ [dq] @ ''markdown'' @ [dq] @ '' or '' @ [dq] @ ''html'' @ [dq] @
                 '' when --perissue is set.'')
      else if dep opts \<and> truthyStr (diff opts)
      then Some ''The --dep and --diff options cannot both be set.''
      else None)"

text \<open>Lines 189-199: which file is the report, and which the report on published specs.\<close>

definition resolveReports ::
  "(string list \<Rightarrow> string) \<Rightarrow> filesys \<Rightarrow> string \<Rightarrow> options \<Rightarrow> string \<times> string option" where
  "resolveReports join fs report opts =
     (let edReport = report;
          trReport = tr opts
      in if \<not> endsWith report ''.json'' then
           (let (edReport, trReport) =
                  (if exists fs (join [report, ''ed'']) then
                     (join [report, ''ed''],
                      if \<not> truthyStr trReport \<and> exists fs (join [report, ''tr''])
                      then Some (join [report, ''tr''])
                      else trReport)
                   else (edReport, trReport))
            in (join [edReport, ''index.json''], trReport))
         else (edReport, trReport))"

text \<open>Lines 205-207.\<close>

definition resolveTr :: "(string list \<Rightarrow> string) \<Rightarrow> string \<Rightarrow> string" where
  "resolveTr join trReport =
     (if \<not> endsWith trReport ''.json'' then join [trReport, ''index.json''] else trReport)"

text \<open>Lines 231-268: the report is produced from the study and printed.\<close>

definition render :: "'s externals \<Rightarrow> options \<Rightarrow> 's \<Rightarrow> 's event list \<times> status" where
  "render ext opts study =
     (if truthyStr (diff opts) \<or> dep opts then
        (let genOpts = ReportOptions (dep opts) (truthyStr (diff opts)) (diff opts) (onlynew opts)
         in case generateReport ext study genOpts of
              None \<Rightarrow> ([CallGenerateReport study genOpts], Rejected)
            | Some res \<Rightarrow> ([CallGenerateReport study genOpts, LogMsg res], Completed))
      else if truthyStr (format opts) \<and> format opts \<noteq> Some ''json'' then
        (let generateOptions = MarkdownOptions (\<not> perissue opts)
         in case generateReport ext study generateOptions of
              None \<Rightarrow> ([CallGenerateReport study generateOptions], Rejected)
            | Some markdown \<Rightarrow>
                if format opts = Some ''html'' then
                  (let template = path_join ext [dirname ext, ''src'', ''templates'',
                                    ''report'' @ (if perissue opts then ''-perissue'' else []) @ ''-template.html''];
                       args = [''-f'', ''markdown'', ''-t'', ''html5'', ''--section-divs'', ''-s'',
                               ''--template'', template]
                   in case pandoc ext markdown args of
                        None \<Rightarrow> ([CallGenerateReport study generateOptions, CallPandoc markdown args], Rejected)
                      | Some res \<Rightarrow>
                          ([CallGenerateReport study generateOptions, CallPandoc markdown args, LogMsg res],
                           Completed))
                else ([CallGenerateReport study generateOptions, LogMsg markdown], Completed))
      else ([LogMsg (stringify ext study)], Completed))"

text \<open>Lines 214-229: the study is read from the report when the report is a study, and
  computed by \<open>studyCrawl\<close> otherwise. The result is the events and the study, if any.\<close>

definition loadStudy ::
  "'s externals \<Rightarrow> filesys \<Rightarrow> options \<Rightarrow> string \<Rightarrow> string option \<Rightarrow> 's event list \<times> 's option" where
  "loadStudy ext fs opts edReport trReport =
     (case isStudyReport fs edReport of
        None \<Rightarrow> ([CallIsStudyReport edReport], None)
      | Some isStudy \<Rightarrow>
          (let (ev, study) =
                 (if truthy isStudy
                  then ([CallIsStudyReport edReport, CallRequire edReport],
                        requireFromWorkingDirectory ext edReport)
                  else ([CallIsStudyReport edReport], None))
           in case study of
                Some s \<Rightarrow> (ev, Some s)
              | None \<Rightarrow>
                  (let studyOptions = \<lparr> include' = spec opts, trResults = trReport \<rparr>
                   in (ev @ [CallStudyCrawl edReport studyOptions],
                       studyCrawl ext edReport studyOptions))))"

text \<open>Lines 214-268: what the action does once the files are known to be there.\<close>

definition produce ::
  "'s externals \<Rightarrow> filesys \<Rightarrow> options \<Rightarrow> string \<Rightarrow> string option \<Rightarrow> 's event list \<times> status" where
  "produce ext fs opts edReport trReport =
     (case loadStudy ext fs opts edReport trReport of
        (ev, None) \<Rightarrow> (ev, Rejected)
      | (ev, Some study) \<Rightarrow>
          (case render ext opts study of (ev', st) \<Rightarrow> (ev @ ev', st)))"

text \<open>Lines 165-269: the whole action. \<open>process.exit(2)\<close> ends the run on the spot.\<close>

definition action :: "'s externals \<Rightarrow> filesys \<Rightarrow> string \<Rightarrow> options \<Rightarrow> 's event list \<times> status" where
  "action ext fs report opts =
     (case checkOptions opts of
        Some msg \<Rightarrow> ([ErrorMsg msg], Exit 2)
      | None \<Rightarrow>
          (let (edReport, trReport) = resolveReports (path_join ext) fs report opts
           in if \<not> exists fs edReport
              then ([ErrorMsg (''Could not find/access crawl/study report: '' @ report)], Exit 2)
              else if truthyStr trReport then
                (let trReport = resolveTr (path_join ext) (the trReport)
                 in if \<not> exists fs trReport
                    then ([ErrorMsg (''Could not find/access TR crawl report: '' @ tpl (tr opts))], Exit 2)
                    else produce ext fs opts edReport (Some trReport))
              else produce ext fs opts edReport trReport))"

text \<open>Events that are calls of \<open>studyCrawl\<close>; events other than a message on the error
  stream.\<close>

fun isCrawlCall :: "'s event \<Rightarrow> bool" where
  "isCrawlCall (CallStudyCrawl p so) = True"
| "isCrawlCall e = False"

section \<open>The study result and its diff, as the specification describes them\<close>

text \<open>
  Modelled from the spec: an anomaly record (section 3). The modules that build study
  results (\<open>src/lib/study-crawl.js\<close>, \<open>src/lib/study-backrefs.js\<close>) are not among the
  sources at hand. A record carries the shortname of the owning specification and, by
  kind, the literal target URL or the fragment.
\<close>

datatype anomaly =
    BrokenLink string
  | StaleLink string bool
  | DuplicateDefinition string
  | OrphanDefinition string

text \<open>Modelled from the spec: the record proper (section 3), the anomaly with the shortname
  of the specification that owns it; the modules that emit such records are missing.\<close>

record anomalyRecord =
  owner :: string
  anomaly :: anomaly

text \<open>
  Modelled from the spec: equality of anomaly records across runs (section 3), which is
  by kind and target or fragment. The library module that compares them is missing.
\<close>

datatype anomalyKind = Broken | Stale | Duplicate | Orphan

text \<open>Modelled from the spec: the key by which the missing comparison tells anomaly records
  apart (section 3), the kind with the target or fragment; \<open>publishedOnly\<close> is not part
  of it.\<close>

fun anomalyKey :: "anomaly \<Rightarrow> anomalyKind \<times> string" where
  "anomalyKey (BrokenLink t) = (Broken, t)"
| "anomalyKey (StaleLink t publishedOnly) = (Stale, t)"
| "anomalyKey (DuplicateDefinition f) = (Duplicate, f)"
| "anomalyKey (OrphanDefinition f) = (Orphan, f)"

text \<open>Modelled from the spec: two records are the same anomaly when their keys are equal
  (section 3); the module that compares them is missing.\<close>

definition sameAnomaly :: "anomalyRecord \<Rightarrow> anomalyRecord \<Rightarrow> bool" where
  "sameAnomaly a b = (anomalyKey (anomaly a) = anomalyKey (anomaly b))"

text \<open>
  Modelled from the spec: the study result (section 3), a mapping from shortname to a
  summary of title, source repository, crawled URL and anomaly records, in the order of
  the crawl records. The module that aggregates it (\<open>src/lib/study-crawl.js\<close>) is missing.
\<close>

record summary =
  summaryTitle :: string
  sourceRepository :: string
  crawledUrl :: string
  anomalyRecords :: "anomalyRecord list"

text \<open>Modelled from the spec: the mapping itself (section 3), as the list of its entries in
  insertion order; the module that builds it is missing.\<close>

type_synonym studyResult = "(string \<times> summary) list"

text \<open>
  Modelled from the spec: the operation \<open>Diff\<close> (sections 3 and 4.5) of the missing module
  \<open>src/lib/generate-report.js\<close>. For a shortname on both sides the entry holds the set
  difference of the anomaly records either way; a specification on one side only is
  wholly added or wholly removed. With \<open>onlyNew\<close> the \<open>removed\<close> lists are suppressed,
  which is modelled as empty lists.
\<close>

record diffEntry =
  added :: "anomalyRecord list"
  removed :: "anomalyRecord list"

text \<open>Modelled from the spec: the set difference of section 4.5, the records of \<open>xs\<close> that are
  the same anomaly as no record of \<open>ys\<close>; part of the missing \<open>generate-report.js\<close>.\<close>

definition missingFrom :: "anomalyRecord list \<Rightarrow> anomalyRecord list \<Rightarrow> anomalyRecord list" where
  "missingFrom xs ys = filter (\<lambda>a. \<not> list_ex (sameAnomaly a) ys) xs"

text \<open>Modelled from the spec: the anomaly records a study result holds for a shortname, none
  when the shortname is not in it (section 3: present on one side only); part of the
  missing \<open>generate-report.js\<close>.\<close>

definition anomaliesOf :: "studyResult \<Rightarrow> string \<Rightarrow> anomalyRecord list" where
  "anomaliesOf study k = (case map_of study k of None \<Rightarrow> [] | Some s \<Rightarrow> anomalyRecords s)"

text \<open>Modelled from the spec: \<open>Diff(reference, candidate, onlyNew)\<close> of section 4.5, the
  entries of the candidate first, then those of the reference alone; the function itself
  is in the missing \<open>generate-report.js\<close>.\<close>

definition Diff :: "studyResult \<Rightarrow> studyResult \<Rightarrow> bool \<Rightarrow> (string \<times> diffEntry) list" where
  "Diff reference candidate onlyNewSet =
     map (\<lambda>(k, c).
            (k, \<lparr> added = missingFrom (anomalyRecords c) (anomaliesOf reference k),
                  removed = (if onlyNewSet then []
                             else missingFrom (anomaliesOf reference k) (anomalyRecords c)) \<rparr>))
         candidate @
     map (\<lambda>(k, r). (k, \<lparr> added = [], removed = (if onlyNewSet then [] else anomalyRecords r) \<rparr>))
         (filter (\<lambda>(k, r). map_of candidate k = None) reference)"

text \<open>
  Modelled from the spec: the output form of a study result (section 6), written by the
  missing module \<open>src/lib/study-crawl.js\<close>. Each value exposes \<open>title\<close>, \<open>repo\<close>, \<open>crawled\<close>
  and the arrays \<open>brokenLinks\<close>, \<open>staleLinks\<close> and \<open>duplicateDefinitions\<close> of literal
  targets; the shortname of the owning specification goes with it.
\<close>

record studyValue = specResult +
  staleLinks :: "string list option"
  duplicateDefinitions :: "string list option"

text \<open>Modelled from the spec: the literal targets of the anomaly records of one kind
  (sections 3 and 6), for the three arrays of the output form; the module that writes them
  is missing.\<close>

fun brokenTarget :: "anomalyRecord \<Rightarrow> string option" where
  "brokenTarget a = (case anomaly a of BrokenLink t \<Rightarrow> Some t | _ \<Rightarrow> None)"

text \<open>Modelled from the spec: the same for stale links (section 6, \<open>staleLinks\<close>); the module
  that writes the array is missing.\<close>

fun staleTarget :: "anomalyRecord \<Rightarrow> string option" where
  "staleTarget a = (case anomaly a of StaleLink t p \<Rightarrow> Some t | _ \<Rightarrow> None)"

text \<open>Modelled from the spec: the same for duplicate definitions (section 6,
  \<open>duplicateDefinitions\<close>); the module that writes the array is missing.\<close>

fun duplicateTarget :: "anomalyRecord \<Rightarrow> string option" where
  "duplicateTarget a = (case anomaly a of DuplicateDefinition f \<Rightarrow> Some f | _ \<Rightarrow> None)"

text \<open>Modelled from the spec: the value the output form holds for one specification
  (section 6); the module that writes it is missing.\<close>

definition exposed :: "string \<Rightarrow> summary \<Rightarrow> studyValue" where
  "exposed k s =
     \<lparr> shortname = Some k,
       title = Some (summaryTitle s),
       repo = Some (sourceRepository s),
       crawled = Some (crawledUrl s),
       brokenLinks = Some (List.map_filter brokenTarget (anomalyRecords s)),
       staleLinks = Some (List.map_filter staleTarget (anomalyRecords s)),
       duplicateDefinitions = Some (List.map_filter duplicateTarget (anomalyRecords s)) \<rparr>"

text \<open>Modelled from the spec: the output form of a whole study result (section 6), keyed by
  shortname in the order of the study result; the module that writes it is missing.\<close>

definition outputOf :: "studyResult \<Rightarrow> (string \<times> studyValue) list" where
  "outputOf study = map (\<lambda>(k, s). (k, exposed k s)) study"

section \<open>Concrete inputs\<close>

subsection \<open>\<open>path.join\<close> on POSIX\<close>

text \<open>
  The programs take \<open>path.join\<close> from Node; the properties below hold for any function in
  its place. For concrete runs it is Node's POSIX version: the non-empty arguments are
  joined with a slash and the result is normalised (empty and \<open>.\<close> segments dropped,
  \<open>..\<close> resolved, a trailing slash kept).
\<close>

fun splitSlash :: "string \<Rightarrow> string list" where
  "splitSlash [] = [[]]"
| "splitSlash (c # cs) =
     (if c = CHR ''/'' then [] # splitSlash cs
      else (case splitSlash cs of [] \<Rightarrow> [[c]] | w # ws \<Rightarrow> (c # w) # ws))"

fun normalizeSegments :: "bool \<Rightarrow> string list \<Rightarrow> string list \<Rightarrow> string list" where
  "normalizeSegments allowAboveRoot acc [] = rev acc"
| "normalizeSegments allowAboveRoot acc (seg # segs) =
     (if seg = [] \<or> seg = ''.'' then normalizeSegments allowAboveRoot acc segs
      else if seg = ''..'' then
        (case acc of
           lastSeg # rest \<Rightarrow>
             if lastSeg \<noteq> ''..'' then normalizeSegments allowAboveRoot rest segs
             else if allowAboveRoot then normalizeSegments allowAboveRoot (''..'' # acc) segs
             else normalizeSegments allowAboveRoot acc segs
         | [] \<Rightarrow>
             if allowAboveRoot then normalizeSegments allowAboveRoot [''..''] segs
             else normalizeSegments allowAboveRoot [] segs)
      else normalizeSegments allowAboveRoot (seg # acc) segs)"

definition normalize :: "string \<Rightarrow> string" where
  "normalize p =
     (if p = [] then ''.''
      else
        let isAbsolute = (hd p = CHR ''/'');
            trailingSeparator = (last p = CHR ''/'');
            body = joinWith ''/'' (normalizeSegments (\<not> isAbsolute) [] (splitSlash p))
        in if body = [] then (if isAbsolute then ''/'' else if trailingSeparator then ''./'' else ''.'')
           else (if isAbsolute then ''/'' else []) @ body @ (if trailingSeparator then ''/'' else []))"

definition posixJoin :: "string list \<Rightarrow> string" where
  "posixJoin args =
     (let joined = joinWith ''/'' (filter (\<lambda>a. a \<noteq> []) args)
      in if joined = [] then ''.'' else normalize joined)"

subsection \<open>A study result for the issue filer\<close>

text \<open>Three specifications; the first two are those of the issue drafts in
  src/unnamed/part_000, the second with one more link, into the /TR/ space.\<close>

definition domResult :: specResult where
  "domResult =
     \<lparr> shortname = Some ''dom'',
       title = Some ''DOM Standard'',
       repo = Some ''https://github.com/whatwg/dom'',
       crawled = Some ''https://dom.spec.whatwg.org/'',
       brokenLinks = Some [''https://w3c.github.io/DOM-Parsing/#dfn-createcontextualfragment-fragment''] \<rparr>"

definition compatResult :: specResult where
  "compatResult =
     \<lparr> shortname = Some ''compat'',
       title = Some ''Compatibility Standard'',
       repo = Some ''https://github.com/whatwg/compat'',
       crawled = Some ''https://compat.spec.whatwg.org/'',
       brokenLinks = Some [''https://drafts.csswg.org/css-color-4/#typedef-color'',
                           ''https://www.w3.org/TR/css-color-4/#valdef-color-currentcolor'',
                           ''https://drafts.csswg.org/css-transitions/#animtype-color''] \<rparr>"

definition fetchResult :: specResult where
  "fetchResult =
     \<lparr> shortname = Some ''fetch'',
       title = Some ''Fetch Standard'',
       repo = Some ''https://github.com/whatwg/fetch'',
       crawled = Some ''https://fetch.spec.whatwg.org/'',
       brokenLinks = Some [''https://url.spec.whatwg.org/#no-such-anchor''] \<rparr>"

definition exampleResults :: "(string \<times> specResult) list" where
  "exampleResults =
     [(''https://dom.spec.whatwg.org/'', domResult),
      (''https://compat.spec.whatwg.org/'', compatResult),
      (''https://fetch.spec.whatwg.org/'', fetchResult)]"

text \<open>A working tree in which the draft for \<open>compat\<close> is already there.\<close>

definition exampleEnv :: filerEnv where
  "exampleEnv =
     \<lparr> pathJoin = posixJoin,
       stat = (\<lambda>f. if f = ''issues/compat-brokenlinks.md'' then Some True else None),
       writeFileOk = (\<lambda>f. True),
       execSyncOk = (\<lambda>c. True) \<rparr>"

subsection \<open>A file system and the externals for runs of the command\<close>

text \<open>A study report as \<open>JSON.stringify\<close> writes it, and the same report behind 1024
  spaces (still the same JSON document).\<close>

definition studyText :: string where
  \<open>studyText = ''{"type": "study", "results": []}''\<close>

definition lateStudyText :: string where
  "lateStudyText = replicate 1024 (CHR '' '') @ studyText"

text \<open>The same report behind 1010 spaces: the match of the pattern starts within the first
  1024 bytes and ends beyond them.\<close>

definition straddlingStudyText :: string where
  "straddlingStudyText = replicate 1010 (CHR '' '') @ studyText"

definition crawlText :: string where
  \<open>crawlText = ''{"type": "crawl", "results": []}''\<close>

text \<open>
  A crawl report in a folder (\<open>crawl/index.json\<close>), a folder with \<open>ed\<close> and \<open>tr\<close>
  subfolders and an index file of its own (\<open>webref\<close>), a crawl report in a file whose
  name has no extension (\<open>report\<close>), and the three study reports.
\<close>

definition exampleFs :: filesys where
  "exampleFs p =
     (if p \<in> set [''crawl'', ''webref'', ''webref/ed'', ''webref/tr''] then Some Directory
      else if p \<in> set [''crawl/index.json'', ''webref/index.json'', ''webref/ed/index.json'',
                        ''webref/tr/index.json'', ''report''] then Some (RegFile crawlText)
      else if p = ''study.json'' then Some (RegFile studyText)
      else if p = ''late.json'' then Some (RegFile lateStudyText)
      else if p = ''straddling.json'' then Some (RegFile straddlingStudyText)
      else None)"

text \<open>The study is stood for by a text that tells where it came from.\<close>

definition exampleExternals :: "string externals" where
  "exampleExternals =
     \<lparr> path_join = posixJoin,
       dirname = ''/opt/strudy'',
       requireFromWorkingDirectory = (\<lambda>p. Some (''loaded from '' @ p)),
       studyCrawl = (\<lambda>p so. Some (''analysis of '' @ p)),
       generateReport = (\<lambda>s g. Some (''report on '' @ s)),
       pandoc = (\<lambda>m args. Some (''html of '' @ m)),
       stringify = (\<lambda>s. s) \<rparr>"

definition noOptions :: options where
  "noOptions =
     \<lparr> format = None, diff = None, spec = None, dep = False, onlynew = False,
       perissue = False, tr = None \<rparr>"

subsection \<open>Two study results\<close>

text \<open>Two runs over the DOM Standard: the reference has a broken link and a stale link,
  the candidate has the same broken link and a new one.\<close>

definition referenceStudy :: studyResult where
  "referenceStudy =
     [(''dom'',
       \<lparr> summaryTitle = ''DOM Standard'',
         sourceRepository = ''https://github.com/whatwg/dom'',
         crawledUrl = ''https://dom.spec.whatwg.org/'',
         anomalyRecords =
           [\<lparr> owner = ''dom'', anomaly = BrokenLink ''https://w3c.github.io/DOM-Parsing/#dfn-createcontextualfragment-fragment'' \<rparr>,
            \<lparr> owner = ''dom'', anomaly = StaleLink ''https://www.w3.org/TR/html52/#gone'' True \<rparr>] \<rparr>)]"

definition candidateStudy :: studyResult where
  "candidateStudy =
     [(''dom'',
       \<lparr> summaryTitle = ''DOM Standard'',
         sourceRepository = ''https://github.com/whatwg/dom'',
         crawledUrl = ''https://dom.spec.whatwg.org/'',
         anomalyRecords =
           [\<lparr> owner = ''dom'', anomaly = BrokenLink ''https://w3c.github.io/DOM-Parsing/#dfn-createcontextualfragment-fragment'' \<rparr>,
            \<lparr> owner = ''dom'', anomaly = BrokenLink ''https://url.spec.whatwg.org/#no-such-anchor'' \<rparr>] \<rparr>)]"

section \<open>Properties of the issue filer\<close>

lemma endsWith_eval: "endsWith s suf = prefix (rev suf) (rev s)"
  by (simp add: endsWith_def suffix_to_prefix)

lemma contains_iff: "contains pat s \<longleftrightarrow> (\<exists>u v. s = u @ pat @ v)"
proof (induction s)
  case Nil
  then show ?case by auto
next
  case (Cons c cs)
  note IH = Cons.IH
  show ?case
  proof
    assume "contains pat (c # cs)"
    then consider "prefix pat (c # cs)" | "contains pat cs" by auto
    then show "\<exists>u v. c # cs = u @ pat @ v"
    proof cases
      case 1
      then obtain v where "c # cs = pat @ v" by (auto simp: prefix_def)
      then have "c # cs = [] @ pat @ v" by simp
      then show ?thesis by blast
    next
      case 2
      with IH obtain u v where "cs = u @ pat @ v" by blast
      then have "c # cs = (c # u) @ pat @ v" by simp
      then show ?thesis by blast
    qed
  next
    assume "\<exists>u v. c # cs = u @ pat @ v"
    then obtain u v where uv: "c # cs = u @ pat @ v" by blast
    show "contains pat (c # cs)"
    proof (cases "u = []")
      case True
      with uv have "prefix pat (c # cs)" unfolding prefix_def by auto
      then show ?thesis by simp
    next
      case False
      then obtain a u' where "u = a # u'" by (cases u) auto
      with uv have "cs = u' @ pat @ v" by simp
      with IH have "contains pat cs" by blast
      then show ?thesis by simp
    qed
  qed
qed

lemma posixJoin_issues:
  "posixJoin [''issues/'', ''compat-brokenlinks.md''] = ''issues/compat-brokenlinks.md''"
  by (simp add: posixJoin_def normalize_def)

lemma matchesTR_example:
  "matchesTR ''https://www.w3.org/TR/css-color-4/#valdef-color-currentcolor''"
  by (simp add: matchesTR_def)

lemma keptBrokenLinks_compat:
  "keptBrokenLinks compatResult =
     [''https://drafts.csswg.org/css-color-4/#typedef-color'',
      ''https://drafts.csswg.org/css-transitions/#animtype-color'']"
  by (simp add: keptBrokenLinks_def compatResult_def matchesTR_def)

lemma set_execAll_mutates: "e \<in> set (execAll ok cs) \<Longrightarrow> mutates e"
  by (induction cs) (auto split: if_splits)

text \<open>
  C4. A link whose target matches the pattern \<open>w3.org/TR/\<close> is not among the links the issue
  filer keeps, whatever else the specification's result holds; the draft the filer writes
  is rendered from the kept links, so it lists no such link.
\<close>

theorem tr_links_never_reported:
  assumes "matchesTR u"
  shows "u \<notin> set (keptBrokenLinks specRes) \<and>
         (\<forall>f c. WriteFile f c \<in> set (fileIssue env currentBranch specRes) \<longrightarrow>
                (\<exists>links. c = issueReport specRes links \<and> u \<notin> set links))"
proof
  show kept: "u \<notin> set (keptBrokenLinks specRes)"
    using assms by (auto simp: keptBrokenLinks_def split: option.splits)
  show "\<forall>f c. WriteFile f c \<in> set (fileIssue env currentBranch specRes) \<longrightarrow>
                (\<exists>links. c = issueReport specRes links \<and> u \<notin> set links)"
  proof (intro allI impI)
    fix f c
    assume "WriteFile f c \<in> set (fileIssue env currentBranch specRes)"
    then have "c = issueReport specRes (keptBrokenLinks specRes)"
      by (auto simp: fileIssue_def Let_def pullrequests_def
               split: if_splits option.splits dest: set_execAll_mutates)
    with kept show "\<exists>links. c = issueReport specRes links \<and> u \<notin> set links"
      by blast
  qed
qed

theorem tr_links_never_reported_witness:
  "matchesTR ''https://www.w3.org/TR/css-color-4/#valdef-color-currentcolor'' \<and>
   ''https://www.w3.org/TR/css-color-4/#valdef-color-currentcolor'' \<in> set (the (brokenLinks compatResult)) \<and>
   ''https://www.w3.org/TR/css-color-4/#valdef-color-currentcolor'' \<notin> set (keptBrokenLinks compatResult)"
  using tr_links_never_reported [OF matchesTR_example, of compatResult exampleEnv "''main''"]
        matchesTR_example
  by (simp add: compatResult_def)

lemma map_of_take_key:
  "k \<in> fst ` set (take n xs) \<Longrightarrow> map_of (take n xs) k = map_of xs k"
proof (induction xs arbitrary: n)
  case Nil
  then show ?case by simp
next
  case (Cons x xs)
  then show ?case by (cases n) auto
qed

lemma issuePass_take: "issuePass env currentBranch (take 2 results) = issuePass env currentBranch results"
proof -
  have keys: "take 2 (map fst (take 2 results)) = take 2 (map fst results)"
    by (simp add: take_map)
  have "map_of (take 2 results) uri = map_of results uri" if "uri \<in> set (take 2 (map fst results))" for uri
    using that map_of_take_key [of uri 2 results] by (simp add: take_map)
  then show ?thesis
    unfolding issuePass_def keys by (intro map_cong) auto
qed

lemma issuePass_keys: "map fst (issuePass env currentBranch results) = take 2 (map fst results)"
  by (simp add: issuePass_def comp_def)

lemma key_beyond_second:
  assumes "distinct (map fst results)" "2 \<le> i" "i < length results"
  shows "fst (results ! i) \<notin> set (take 2 (map fst results))"
proof -
  let ?ks = "map fst results"
  have i: "2 + (i - 2) = i"
    using assms(2) by arith
  have "drop 2 ?ks ! (i - 2) = ?ks ! (2 + (i - 2))"
    using assms(2,3) by (intro nth_drop) simp
  moreover have "i - 2 < length (drop 2 ?ks)"
    using assms(2,3) by simp
  ultimately have "?ks ! i \<in> set (drop 2 ?ks)"
    unfolding i by (metis nth_mem)
  moreover have "set (take 2 ?ks) \<inter> set (drop 2 ?ks) = {}"
    using assms(1) by (rule set_take_disj_set_drop_if_distinct) simp
  ultimately show ?thesis using assms(3) by auto
qed

text \<open>
  C9. The pass starts a callback for the first two keys of the study result, in key order,
  and for no other: its effects are those of the pass over the first two entries alone,
  and a specification beyond the second has no callback, hence no file and no commit.
\<close>

theorem issue_pass_first_two_only:
  "map fst (issuePass env currentBranch results) = take 2 (map fst results) \<and>
   issuePass env currentBranch results = issuePass env currentBranch (take 2 results) \<and>
   (distinct (map fst results) \<longrightarrow>
      (\<forall>i. 2 \<le> i \<and> i < length results \<longrightarrow>
           fst (results ! i) \<notin> fst ` set (issuePass env currentBranch results)))"
proof (intro conjI impI allI)
  show "map fst (issuePass env currentBranch results) = take 2 (map fst results)"
    by (rule issuePass_keys)
  show "issuePass env currentBranch results = issuePass env currentBranch (take 2 results)"
    by (rule issuePass_take [symmetric])
next
  fix i
  assume "distinct (map fst results)" and "2 \<le> i \<and> i < length results"
  then have "fst (results ! i) \<notin> set (take 2 (map fst results))"
    by (simp add: key_beyond_second)
  then have "fst (results ! i) \<notin> set (map fst (issuePass env currentBranch results))"
    by (simp add: issuePass_keys)
  then show "fst (results ! i) \<notin> fst ` set (issuePass env currentBranch results)"
    by simp
qed

theorem issue_pass_first_two_only_witness:
  "distinct (map fst exampleResults) \<and> length exampleResults = 3 \<and>
   map fst (issuePass exampleEnv ''main'' exampleResults) =
     [''https://dom.spec.whatwg.org/'', ''https://compat.spec.whatwg.org/''] \<and>
   fst (exampleResults ! 2) = ''https://fetch.spec.whatwg.org/'' \<and>
   ''https://fetch.spec.whatwg.org/'' \<notin> fst ` set (issuePass exampleEnv ''main'' exampleResults)"
proof -
  have d: "distinct (map fst exampleResults)" and l: "length exampleResults = 3"
    and k: "fst (exampleResults ! 2) = ''https://fetch.spec.whatwg.org/''"
    by (simp_all add: exampleResults_def)
  have t: "take 2 (map fst exampleResults) =
             [''https://dom.spec.whatwg.org/'', ''https://compat.spec.whatwg.org/'']"
    by (simp add: exampleResults_def)
  note first_two = issue_pass_first_two_only [of exampleEnv "''main''" exampleResults]
  from first_two [THEN conjunct2, THEN conjunct2] d l
  have "fst (exampleResults ! 2) \<notin> fst ` set (issuePass exampleEnv ''main'' exampleResults)"
    by simp
  with first_two [THEN conjunct1] d l k t show ?thesis by simp
qed

lemma fileIssue_nothing:
  "keptBrokenLinks specRes = [] \<Longrightarrow> fileIssue env currentBranch specRes = []"
  by (simp add: fileIssue_def)

lemma fileIssue_exists:
  "keptBrokenLinks specRes \<noteq> [] \<Longrightarrow> stat env (issueFilename env specRes) = Some isFile \<Longrightarrow>
   fileIssue env currentBranch specRes =
     [if isFile then ConsoleLog (issueFilename env specRes @ '' already exists, bailing'')
      else ConsoleError (issueFilename env specRes @ '' already exists but is not a file'')]"
  by (simp add: fileIssue_def)

lemma fileIssue_writes:
  "keptBrokenLinks specRes \<noteq> [] \<Longrightarrow> stat env (issueFilename env specRes) = None \<Longrightarrow>
   \<exists>rest. fileIssue env currentBranch specRes =
     WriteFile (issueFilename env specRes) (issueReport specRes (keptBrokenLinks specRes)) # rest"
  by (simp add: fileIssue_def pullrequests_def)

text \<open>
  C10. The callback for a specification writes no file and runs no git command exactly
  when the specification has no broken link left after the filter, or \<open>fs.stat\<close> finds
  something at the path of its issue file. (In the second case it prints one message.)
\<close>

theorem nothing_filed_when_empty_or_present:
  "(\<forall>e \<in> set (fileIssue env currentBranch specRes). \<not> mutates e) \<longleftrightarrow>
   (keptBrokenLinks specRes = [] \<or> stat env (issueFilename env specRes) \<noteq> None)"
proof (cases "keptBrokenLinks specRes = []")
  case True
  then show ?thesis by (simp add: fileIssue_nothing)
next
  case False
  show ?thesis
  proof (cases "stat env (issueFilename env specRes)")
    case None
    with False fileIssue_writes [of specRes env currentBranch] show ?thesis by auto
  next
    case (Some isFile)
    with False fileIssue_exists [of specRes env isFile currentBranch] show ?thesis by auto
  qed
qed

theorem nothing_filed_when_empty_or_present_witness:
  "keptBrokenLinks compatResult \<noteq> [] \<and>
   stat exampleEnv (issueFilename exampleEnv compatResult) = Some True \<and>
   list_all (\<lambda>e. \<not> mutates e) (fileIssue exampleEnv ''main'' compatResult) \<and>
   keptBrokenLinks domResult \<noteq> [] \<and>
   stat exampleEnv (issueFilename exampleEnv domResult) = None \<and>
   list_ex mutates (fileIssue exampleEnv ''main'' domResult)"
proof -
  have c: "issueFilename exampleEnv compatResult = ''issues/compat-brokenlinks.md''"
    by (simp add: issueFilename_def issueMoniker_def exampleEnv_def compatResult_def tpl_def
                  posixJoin_def normalize_def)
  have d: "issueFilename exampleEnv domResult = ''issues/dom-brokenlinks.md''"
    by (simp add: issueFilename_def issueMoniker_def exampleEnv_def domResult_def tpl_def
                  posixJoin_def normalize_def)
  have sc: "stat exampleEnv (issueFilename exampleEnv compatResult) = Some True"
    unfolding c by (simp add: exampleEnv_def)
  have sd: "stat exampleEnv (issueFilename exampleEnv domResult) = None"
    unfolding d by (simp add: exampleEnv_def)
  have kc: "keptBrokenLinks compatResult \<noteq> []"
    by (simp add: keptBrokenLinks_compat)
  have kd: "keptBrokenLinks domResult \<noteq> []"
    by (simp add: keptBrokenLinks_def domResult_def matchesTR_def)
  from nothing_filed_when_empty_or_present [of exampleEnv "''main''" compatResult]
       nothing_filed_when_empty_or_present [of exampleEnv "''main''" domResult]
       sc sd kc kd
  show ?thesis by (simp add: list_all_iff list_ex_iff)
qed

section \<open>Properties of the decoder and of the regular expression\<close>

lemma okState_Idle: "okState Idle"
  by (simp add: okState_def)

lemma startByte_ascii: "x < 0x80 \<Longrightarrow> startByte x = ([x], Idle)"
  by (simp add: startByte_def)

lemma okState_startByte: "okState (snd (startByte x))"
  by (auto simp: startByte_def okState_def)

lemma startByte_high: "0x80 \<le> x \<Longrightarrow> z \<in> set (fst (startByte x)) \<Longrightarrow> 0x80 \<le> z"
  by (auto simp: startByte_def split: if_splits)

lemma toUnits_high: "0x80 \<le> cp \<Longrightarrow> z \<in> set (toUnits cp) \<Longrightarrow> 0x80 \<le> z"
  by (auto simp: toUnits_def split: if_splits)

lemma okState_decodeByte: "okState st \<Longrightarrow> okState (snd (decodeByte st x))"
proof (cases st)
  case Idle
  then show ?thesis by (simp add: okState_startByte)
next
  case (Pending cp needed lower upper)
  assume ok: "okState st"
  show ?thesis
  proof (cases "lower \<le> x \<and> x \<le> upper")
    case False
    with Pending show ?thesis by (simp add: okState_startByte)
  next
    case True
    show ?thesis
    proof (cases "needed = 1")
      case True
      with Pending \<open>lower \<le> x \<and> x \<le> upper\<close> show ?thesis by (simp add: okState_def Let_def)
    next
      case False
      with ok Pending obtain k where k: "needed = Suc (Suc k)"
        by (cases needed; cases "needed - 1") (auto simp: okState_def)
      from ok Pending have lo: "0x80 \<le> lower"
        and b: "0x80 \<le> cp * 0x40 ^ needed + (lower - 0x80) * 0x40 ^ (needed - 1)"
        by (simp_all add: okState_def)
      from True lo have "lower - 0x80 \<le> x - 0x80" by arith
      then have "(lower - 0x80) * 0x40 ^ (needed - 1) \<le> (x - 0x80) * 0x40 ^ (needed - 1)"
        by (rule mult_le_mono1)
      with b have "0x80 \<le> cp * 0x40 ^ needed + (x - 0x80) * 0x40 ^ (needed - 1)"
        by arith
      also have "\<dots> = (cp * 0x40 + (x - 0x80)) * 0x40 ^ (needed - 1)"
        using k by (simp add: algebra_simps)
      finally show ?thesis
        using Pending True False k by (simp add: okState_def Let_def)
    qed
  qed
qed

lemma decodeByte_high:
  assumes "okState st" and "0x80 \<le> x" and "z \<in> set (fst (decodeByte st x))"
  shows "0x80 \<le> z"
proof (cases st)
  case Idle
  with assms show ?thesis by (auto dest: startByte_high)
next
  case (Pending cp needed lower upper)
  show ?thesis
  proof (cases "lower \<le> x \<and> x \<le> upper")
    case False
    with Pending assms show ?thesis by (auto dest: startByte_high)
  next
    case True
    show ?thesis
    proof (cases "needed = 1")
      case False
      with Pending True assms show ?thesis by (simp add: Let_def)
    next
      case n: True
      from assms(1) Pending n have "0x80 \<le> lower \<and> 0x80 \<le> cp * 0x40 + (lower - 0x80)"
        by (simp add: okState_def, arith)
      with True have "0x80 \<le> cp * 0x40 + (x - 0x80)" by arith
      with Pending True n assms(3) show ?thesis
        by (auto simp: Let_def dest: toUnits_high)
    qed
  qed
qed

lemma decodeByte_ascii:
  assumes "okState st" and "x < 0x80"
  shows "decodeByte st x = (decodeFrom st [] @ [x], Idle)"
proof (cases st)
  case Idle
  with assms show ?thesis by (simp add: startByte_ascii)
next
  case (Pending cp needed lower upper)
  with assms have "\<not> (lower \<le> x \<and> x \<le> upper)" by (simp add: okState_def)
  with Pending assms show ?thesis by (simp add: startByte_ascii)
qed

lemma decodeFrom_ascii:
  assumes "(of_char b :: nat) < 0x80"
  shows "okState st \<Longrightarrow>
         decodeFrom st (xs @ b # ys) = decodeFrom st xs @ of_char b # decodeFrom Idle ys"
proof (induction xs arbitrary: st)
  case Nil
  then show ?case using assms by (simp add: decodeByte_ascii)
next
  case (Cons x xs)
  obtain out st' where d: "decodeByte st (of_char x) = (out, st')"
    by (cases "decodeByte st (of_char x)")
  with okState_decodeByte [OF Cons.prems, of "of_char x"] have "okState st'" by simp
  with Cons.IH d show ?case by simp
qed

lemma decodeFrom_empty: "decodeFrom st bs = [] \<Longrightarrow> st = Idle \<and> bs = []"
proof (induction bs arbitrary: st)
  case Nil
  then show ?case by (cases st) auto
next
  case (Cons b bs)
  obtain out st' where d: "decodeByte st (of_char b) = (out, st')"
    by (cases "decodeByte st (of_char b)")
  with Cons.prems have o: "out = []" and "decodeFrom st' bs = []" by simp_all
  with Cons.IH have "st' = Idle" by blast
  with d o have "decodeByte st (of_char b) = ([], Idle)" by simp
  then have False
    by (cases st) (auto simp: startByte_def toUnits_def Let_def split: if_splits)
  then show ?case ..
qed

lemma append_eq_split:
  assumes "p @ q = u @ a # v" and "a \<notin> set p"
  shows "\<exists>u'. u = p @ u' \<and> q = u' @ a # v"
  using assms by (induction p arbitrary: u) (auto simp: Cons_eq_append_conv)

lemma decodeFrom_split:
  assumes "a < 0x80"
  shows "okState st \<Longrightarrow> decodeFrom st bs = u @ a # v \<Longrightarrow>
         \<exists>xs y ys. bs = xs @ y # ys \<and> of_char y = a \<and> decodeFrom st xs = u \<and> decodeFrom Idle ys = v"
proof (induction bs arbitrary: st u)
  case Nil
  then show ?case using assms by (cases st) (auto simp: Cons_eq_append_conv)
next
  case (Cons b bs)
  obtain out st' where d: "decodeByte st (of_char b) = (out, st')"
    by (cases "decodeByte st (of_char b)")
  with okState_decodeByte [OF Cons.prems(1), of "of_char b"] have ok': "okState st'" by simp
  from Cons.prems(2) d have eq: "out @ decodeFrom st' bs = u @ a # v" by simp
  show ?case
  proof (cases "(of_char b :: nat) < 0x80")
    case False
    then have "\<forall>z \<in> set out. 0x80 \<le> z"
      using decodeByte_high [OF Cons.prems(1), of "of_char b"] d by auto
    with assms have "a \<notin> set out" by auto
    from append_eq_split [OF eq this] obtain u' where u: "u = out @ u'"
      and r: "decodeFrom st' bs = u' @ a # v" by blast
    from Cons.IH [OF ok' r] obtain xs y ys where "bs = xs @ y # ys" "of_char y = a"
      "decodeFrom st' xs = u'" "decodeFrom Idle ys = v" by blast
    with d u have "b # bs = (b # xs) @ y # ys \<and> of_char y = a \<and>
       decodeFrom st (b # xs) = u \<and> decodeFrom Idle ys = v" by simp
    then show ?thesis by blast
  next
    case True
    let ?p = "decodeFrom st []"
    from decodeByte_ascii [OF Cons.prems(1) True] d
    have out: "out = ?p @ [of_char b]" and st': "st' = Idle" by simp_all
    have "\<forall>z \<in> set ?p. 0x80 \<le> z" by (cases st) auto
    with assms have "a \<notin> set ?p" by auto
    from eq out st' have "?p @ (of_char b # decodeFrom Idle bs) = u @ a # v" by simp
    from append_eq_split [OF this \<open>a \<notin> set ?p\<close>] obtain u' where u: "u = ?p @ u'"
      and r: "of_char b # decodeFrom Idle bs = u' @ a # v" by blast
    show ?thesis
    proof (cases u')
      case Nil
      with r u have "b # bs = [] @ b # bs \<and> of_char b = a \<and> decodeFrom st [] = u \<and>
        decodeFrom Idle bs = v" by simp
      then show ?thesis by blast
    next
      case (Cons c u'')
      with r have c: "c = of_char b" and r': "decodeFrom Idle bs = u'' @ a # v" by simp_all
      from Cons.IH [OF okState_Idle r'] obtain xs y ys where s: "bs = xs @ y # ys" "of_char y = a"
        "decodeFrom Idle xs = u''" "decodeFrom Idle ys = v" by blast
      from d out st' s(3) have "decodeFrom st (b # xs) = ?p @ of_char b # u''" by simp
      with u Cons c s have "b # bs = (b # xs) @ y # ys \<and> of_char y = a \<and>
         decodeFrom st (b # xs) = u \<and> decodeFrom Idle ys = v" by simp
      then show ?thesis by blast
    qed
  qed
qed


lemma stripPrefix_iff: "stripPrefix p s = Some r \<longleftrightarrow> s = p @ r"
  by (induction p s rule: stripPrefix.induct) auto

lemma dropWhile_all: "\<forall>u \<in> set ws. P u \<Longrightarrow> \<not> P c \<Longrightarrow> dropWhile P (ws @ c # r) = c # r"
  by (induction ws) auto

lemma not_white: "\<not> isWhiteSpace (of_char CHR '':'')" "\<not> isWhiteSpace (of_char dq)"
  by (simp_all add: isWhiteSpace_def dq_def)

lemma matchHere_iff: "matchHere s \<longleftrightarrow> (\<exists>m v. s = m @ v \<and> isMarker m)"
proof
  assume "matchHere s"
  then obtain r1 c r2 where r1: "stripPrefix (codeUnits (dq # ''type'' @ [dq])) s = Some r1"
    and d1: "dropWhile isWhiteSpace r1 = c # r2" and c: "c = of_char CHR '':''"
    and p: "prefix (codeUnits (dq # ''study'' @ [dq])) (dropWhile isWhiteSpace r2)"
    by (auto simp: matchHere_def split: option.splits list.splits)
  from p obtain v where d2: "dropWhile isWhiteSpace r2 = codeUnits (dq # ''study'' @ [dq]) @ v"
    by (auto simp: prefix_def)
  let ?ws1 = "takeWhile isWhiteSpace r1" and ?ws2 = "takeWhile isWhiteSpace r2"
  have "r1 = ?ws1 @ dropWhile isWhiteSpace r1" "r2 = ?ws2 @ dropWhile isWhiteSpace r2"
    by simp_all
  with d1 d2 c have "r1 = ?ws1 @ [of_char CHR '':''] @ ?ws2 @ codeUnits (dq # ''study'' @ [dq]) @ v"
    by (metis append_Cons append_Nil)
  with r1 have "s = (codeUnits (dq # ''type'' @ [dq]) @ ?ws1 @ [of_char CHR '':''] @ ?ws2 @
                     codeUnits (dq # ''study'' @ [dq])) @ v"
    by (simp add: stripPrefix_iff)
  moreover have "isMarker (codeUnits (dq # ''type'' @ [dq]) @ ?ws1 @ [of_char CHR '':''] @ ?ws2 @
                     codeUnits (dq # ''study'' @ [dq]))"
    unfolding isMarker_def by (intro exI [of _ ?ws1] exI [of _ ?ws2]) (auto dest: set_takeWhileD)
  ultimately show "\<exists>m v. s = m @ v \<and> isMarker m" by blast
next
  assume "\<exists>m v. s = m @ v \<and> isMarker m"
  then obtain ws1 ws2 v where w1: "\<forall>u \<in> set ws1. isWhiteSpace u" and w2: "\<forall>u \<in> set ws2. isWhiteSpace u"
    and s: "s = codeUnits (dq # ''type'' @ [dq]) @ (ws1 @ of_char CHR '':'' # (ws2 @ of_char dq # codeUnits (''study'' @ [dq]) @ v))"
    by (auto simp: isMarker_def codeUnits_def)
  have 1: "stripPrefix (codeUnits (dq # ''type'' @ [dq])) s =
             Some (ws1 @ of_char CHR '':'' # (ws2 @ of_char dq # codeUnits (''study'' @ [dq]) @ v))"
    unfolding s stripPrefix_iff ..
  have 2: "dropWhile isWhiteSpace (ws1 @ of_char CHR '':'' # (ws2 @ of_char dq # codeUnits (''study'' @ [dq]) @ v)) =
             of_char CHR '':'' # (ws2 @ of_char dq # codeUnits (''study'' @ [dq]) @ v)"
    using w1 not_white(1) by (rule dropWhile_all)
  have 3: "dropWhile isWhiteSpace (ws2 @ of_char dq # codeUnits (''study'' @ [dq]) @ v) =
             of_char dq # codeUnits (''study'' @ [dq]) @ v"
    using w2 not_white(2) by (rule dropWhile_all)
  have 4: "prefix (codeUnits (dq # ''study'' @ [dq])) (of_char dq # codeUnits (''study'' @ [dq]) @ v)"
    by (simp add: codeUnits_def)
  show "matchHere s"
    unfolding matchHere_def 1 option.case 2 list.case 3 using 4 by simp
qed

lemma regexSearch_iff: "regexSearch s \<longleftrightarrow> (\<exists>u m v. s = u @ m @ v \<and> isMarker m)"
proof (induction s)
  case Nil
  have "\<not> isMarker []" by (simp add: isMarker_def codeUnits_def)
  then show ?case by (auto simp: matchHere_iff)
next
  case (Cons c cs)
  note IH = Cons.IH
  show ?case
  proof
    assume "regexSearch (c # cs)"
    then consider "matchHere (c # cs)" | "regexSearch cs" by auto
    then show "\<exists>u m v. c # cs = u @ m @ v \<and> isMarker m"
    proof cases
      case 1
      then obtain m v where "c # cs = [] @ m @ v" "isMarker m" by (auto simp: matchHere_iff)
      then show ?thesis by blast
    next
      case 2
      with IH obtain u m v where "cs = u @ m @ v" "isMarker m" by blast
      then have "c # cs = (c # u) @ m @ v \<and> isMarker m" by simp
      then show ?thesis by blast
    qed
  next
    assume "\<exists>u m v. c # cs = u @ m @ v \<and> isMarker m"
    then obtain u m v where e: "c # cs = u @ m @ v" and m: "isMarker m" by blast
    show "regexSearch (c # cs)"
    proof (cases "u = []")
      case True
      with e m have "matchHere (c # cs)" unfolding matchHere_iff by auto
      then show ?thesis by simp
    next
      case False
      then obtain a u' where "u = a # u'" by (cases u) auto
      with e have "cs = u' @ m @ v" by simp
      with IH m have "regexSearch cs" by blast
      then show ?thesis by simp
    qed
  qed
qed

lemma isMarker_ends: "isMarker m \<Longrightarrow> \<exists>mid. m = of_char dq # mid @ [of_char dq]"
  by (auto simp: isMarker_def codeUnits_def)

lemma dq_ascii: "(of_char dq :: nat) < 0x80"
  by (simp add: dq_def)

lemma utf8Decode_quoted:
  "of_char y = (of_char dq :: nat) \<Longrightarrow> of_char y' = (of_char dq :: nat) \<Longrightarrow>
   utf8Decode (pre @ (y # xs @ [y']) @ post) =
     utf8Decode pre @ (of_char dq # utf8Decode xs @ [of_char dq]) @ utf8Decode post"
  using decodeFrom_ascii [of y Idle pre "xs @ y' # post"] decodeFrom_ascii [of y' Idle xs post]
  by (simp add: utf8Decode_def okState_Idle dq_ascii)

lemma marker_bytes:
  assumes "utf8Decode bs = u @ (of_char dq # mid @ [of_char dq]) @ v"
  shows "\<exists>pre y xs y' post. bs = pre @ (y # xs @ [y']) @ post \<and>
           of_char y = (of_char dq :: nat) \<and> of_char y' = (of_char dq :: nat) \<and>
           utf8Decode pre = u \<and> utf8Decode xs = mid \<and> utf8Decode post = v"
proof -
  from assms have "decodeFrom Idle bs = u @ of_char dq # (mid @ of_char dq # v)"
    by (simp add: utf8Decode_def)
  from decodeFrom_split [OF dq_ascii okState_Idle this]
  obtain pre y ys where 1: "bs = pre @ y # ys" "of_char y = (of_char dq :: nat)"
    "decodeFrom Idle pre = u" "decodeFrom Idle ys = mid @ of_char dq # v" by blast
  from decodeFrom_split [OF dq_ascii okState_Idle 1(4)]
  obtain xs y' post where 2: "ys = xs @ y' # post" "of_char y' = (of_char dq :: nat)"
    "decodeFrom Idle xs = mid" "decodeFrom Idle post = v" by blast
  from 1 2 have "bs = pre @ (y # xs @ [y']) @ post \<and>
           of_char y = (of_char dq :: nat) \<and> of_char y' = (of_char dq :: nat) \<and>
           utf8Decode pre = u \<and> utf8Decode xs = mid \<and> utf8Decode post = v"
    by (simp add: utf8Decode_def)
  then show ?thesis by blast
qed

lemma marker_in_prefix:
  assumes "regexSearch (utf8Decode (c @ replicate k (CHR 0x00)))"
  shows "markerWithin (length c) c"
proof -
  from assms obtain u m v where d: "utf8Decode (c @ replicate k (CHR 0x00)) = u @ m @ v"
    and m: "isMarker m" unfolding regexSearch_iff by blast
  from isMarker_ends [OF m] obtain mid where mid: "m = of_char dq # mid @ [of_char dq]" by blast
  from marker_bytes [OF d [unfolded mid]]
  obtain pre y xs y' post where b: "c @ replicate k (CHR 0x00) = pre @ (y # xs @ [y']) @ post"
    and y: "of_char y = (of_char dq :: nat)" and y': "of_char y' = (of_char dq :: nat)"
    and xs: "utf8Decode xs = mid" by blast
  let ?mb = "y # xs @ [y']"
  let ?n = "length (pre @ ?mb)"
  have dm: "utf8Decode ?mb = m"
    using utf8Decode_quoted [OF y y', of "[]" xs "[]"] xs mid by (simp add: utf8Decode_def)
  have nz: "y' \<noteq> CHR 0x00"
    using y' by (auto simp: dq_def)
  have le: "?n \<le> length c"
  proof (rule ccontr)
    assume "\<not> ?n \<le> length c"
    then have g: "length c \<le> ?n - 1" by simp
    have "(c @ replicate k (CHR 0x00)) ! (?n - 1) = (pre @ ?mb @ post) ! (?n - 1)"
      using b by simp
    also have "\<dots> = y'"
      by (simp add: nth_append)
    finally have r: "(c @ replicate k (CHR 0x00)) ! (?n - 1) = y'" .
    have "?n - 1 < length (c @ replicate k (CHR 0x00))"
      unfolding b by simp
    with g have "(c @ replicate k (CHR 0x00)) ! (?n - 1) = CHR 0x00"
      by (simp add: nth_append)
    with r nz show False by simp
  qed
  have "take ?n (c @ replicate k (CHR 0x00)) = pre @ ?mb"
    unfolding b by simp
  with le have "take ?n c = pre @ ?mb" by simp
  then have "c = pre @ ?mb @ drop ?n c"
    by (metis append_assoc append_take_drop_id)
  with le dm m show ?thesis
    unfolding markerWithin_def by blast
qed

lemma marker_found:
  assumes "markerWithin n content"
  shows "\<exists>rest. take n content = rest \<and> regexSearch (utf8Decode (take n content @ pad))"
proof -
  from assms obtain pre mb post where c: "content = pre @ mb @ post" and l: "length (pre @ mb) \<le> n"
    and m: "isMarker (utf8Decode mb)" unfolding markerWithin_def by blast
  from isMarker_ends [OF m] obtain mid where mid: "utf8Decode mb = [] @ (of_char dq # mid @ [of_char dq]) @ []"
    by auto
  from marker_bytes [OF mid] obtain pre' y xs y' post' where
    mb: "mb = pre' @ (y # xs @ [y']) @ post'" and y: "of_char y = (of_char dq :: nat)"
    and y': "of_char y' = (of_char dq :: nat)" and e: "utf8Decode pre' = []" "utf8Decode post' = []"
    and x: "utf8Decode xs = mid" by blast
  from e have "pre' = []" "post' = []"
    by (auto simp: utf8Decode_def dest: decodeFrom_empty)
  with mb have mb': "mb = y # xs @ [y']" by simp
  from c l have "take n content = pre @ mb @ take (n - length (pre @ mb)) post"
    by simp
  then have "utf8Decode (take n content @ pad) =
        utf8Decode pre @ utf8Decode mb @ utf8Decode (take (n - length (pre @ mb)) post @ pad)"
    using utf8Decode_quoted [OF y y', of pre xs "take (n - length (pre @ mb)) post @ pad"]
          utf8Decode_quoted [OF y y', of "[]" xs "[]"]
    by (simp add: mb' utf8Decode_def)
  with m show ?thesis
    unfolding regexSearch_iff by blast
qed

lemma markerWithin_take: "markerWithin (length (take n c)) (take n c) \<Longrightarrow> markerWithin n c"
proof -
  assume "markerWithin (length (take n c)) (take n c)"
  then obtain pre m post where t: "take n c = pre @ m @ post" and l: "length (pre @ m) \<le> length (take n c)"
    and m: "isMarker (utf8Decode m)" unfolding markerWithin_def by blast
  have "c = take n c @ drop n c" by simp
  with t have "c = pre @ m @ (post @ drop n c)" by (metis append_assoc)
  moreover from l have "length (pre @ m) \<le> n" by simp
  ultimately show ?thesis using m unfolding markerWithin_def by blast
qed

lemma sniff_iff:
  "regexSearch (utf8Decode (take 1024 content @ replicate (1024 - length content) (CHR 0x00))) \<longleftrightarrow>
   markerWithin 1024 content"
proof
  assume "regexSearch (utf8Decode (take 1024 content @ replicate (1024 - length content) (CHR 0x00)))"
  then have "markerWithin (length (take 1024 content)) (take 1024 content)"
    by (rule marker_in_prefix)
  then show "markerWithin 1024 content" by (rule markerWithin_take)
next
  assume "markerWithin 1024 content"
  from marker_found [OF this] show
    "regexSearch (utf8Decode (take 1024 content @ replicate (1024 - length content) (CHR 0x00)))"
    by blast
qed

section \<open>Properties of the command\<close>

lemma action_config_error:
  "checkOptions opts = Some msg \<Longrightarrow> action ext fs report opts = ([ErrorMsg msg], Exit 2)"
  by (simp add: action_def)

lemma action_report_missing:
  "checkOptions opts = None \<Longrightarrow>
   \<not> exists fs (fst (resolveReports (path_join ext) fs report opts)) \<Longrightarrow>
   action ext fs report opts =
     ([ErrorMsg (''Could not find/access crawl/study report: '' @ report)], Exit 2)"
  by (cases "resolveReports (path_join ext) fs report opts") (simp add: action_def)

text \<open>
  C2. When \<open>--dep\<close> is set and \<open>--diff\<close> has a (non-empty) value, one of the checks on the
  options fails: the run prints that one message on the error stream and exits with code 2.
  No file is looked at, no analysis is called and nothing is printed as a result.
\<close>

theorem diff_with_dep_is_config_error:
  assumes "dep opts" and "truthyStr (diff opts)"
  shows "\<exists>msg. checkOptions opts = Some msg \<and>
               action ext fs report opts = ([ErrorMsg msg], Exit 2)"
proof -
  from assms have "checkOptions opts \<noteq> None"
    by (simp add: checkOptions_def)
  then obtain msg where "checkOptions opts = Some msg"
    by blast
  then show ?thesis
    by (simp add: action_config_error)
qed

theorem diff_with_dep_is_config_error_witness:
  "dep (noOptions\<lparr>diff := Some ''ref.json'', dep := True\<rparr>) \<and>
   truthyStr (diff (noOptions\<lparr>diff := Some ''ref.json'', dep := True\<rparr>)) \<and>
   action exampleExternals exampleFs ''study.json'' (noOptions\<lparr>diff := Some ''ref.json'', dep := True\<rparr>) =
     ([ErrorMsg ''The --dep and --diff options cannot both be set.''], Exit 2)"
proof -
  let ?opts = "noOptions\<lparr>diff := Some ''ref.json'', dep := True\<rparr>"
  have d: "dep ?opts" and t: "truthyStr (diff ?opts)"
    by (simp_all add: noOptions_def truthyStr_def)
  have c: "checkOptions ?opts = Some ''The --dep and --diff options cannot both be set.''"
    by (simp add: checkOptions_def noOptions_def truthyStr_def)
  from diff_with_dep_is_config_error [OF d t, of exampleExternals exampleFs "''study.json''"] c d t
  show ?thesis by auto
qed

text \<open>
  C5. When the file the report argument resolves to cannot be accessed for reading, the
  run prints exactly one message on the error stream and exits with code 2: the report is
  not sniffed, \<open>studyCrawl\<close> and \<open>generateReport\<close> are not called, nothing is printed as a
  result, and nothing is tried again.
\<close>

theorem unreadable_report_is_terminal:
  assumes "\<not> exists fs (fst (resolveReports (path_join ext) fs report opts))"
  shows "\<exists>msg. action ext fs report opts = ([ErrorMsg msg], Exit 2)"
proof (cases "checkOptions opts")
  case None
  with assms show ?thesis by (simp add: action_report_missing)
next
  case (Some msg)
  then show ?thesis by (simp add: action_config_error)
qed

theorem unreadable_report_is_terminal_witness:
  "\<not> exists exampleFs (fst (resolveReports (path_join exampleExternals) exampleFs ''missing'' noOptions)) \<and>
   action exampleExternals exampleFs ''missing'' noOptions =
     ([ErrorMsg ''Could not find/access crawl/study report: missing''], Exit 2)"
proof -
  have r: "fst (resolveReports (path_join exampleExternals) exampleFs ''missing'' noOptions) = ''missing/index.json''"
    by (simp add: resolveReports_def exampleExternals_def endsWith_eval exists_def exampleFs_def
                  posixJoin_def normalize_def Let_def)
  have e: "\<not> exists exampleFs ''missing/index.json''"
    by (simp add: exists_def exampleFs_def)
  have c: "checkOptions noOptions = None"
    by (simp add: checkOptions_def noOptions_def truthyStr_def)
  from unreadable_report_is_terminal [of exampleFs exampleExternals "''missing''" noOptions]
       action_report_missing [OF c, of exampleFs exampleExternals "''missing''"] r e
  show ?thesis by simp
qed

lemma action_produce:
  assumes "checkOptions opts = None"
    and "resolveReports (path_join ext) fs report opts = (edReport, trReport)"
    and "exists fs edReport"
    and "truthyStr trReport \<longrightarrow> exists fs (resolveTr (path_join ext) (the trReport))"
  shows "action ext fs report opts =
           produce ext fs opts edReport
             (if truthyStr trReport then Some (resolveTr (path_join ext) (the trReport)) else trReport)"
  using assms by (simp add: action_def Let_def)

lemma loadStudy_first:
  "\<exists>rest. fst (loadStudy ext fs opts edReport trReport) = CallIsStudyReport edReport # rest"
  by (simp add: loadStudy_def Let_def split: option.splits)

lemma produce_first:
  "\<exists>rest. fst (produce ext fs opts edReport trReport) = CallIsStudyReport edReport # rest"
proof -
  obtain ev study where l: "loadStudy ext fs opts edReport trReport = (ev, study)"
    by (cases "loadStudy ext fs opts edReport trReport")
  with loadStudy_first [of ext fs opts edReport trReport]
  obtain rest where "ev = CallIsStudyReport edReport # rest" by auto
  with l show ?thesis
    by (cases study; cases "render ext opts (the study)") (auto simp: produce_def)
qed

lemma resolve_as_is:
  "endsWith report ''.json'' \<Longrightarrow> resolveReports join fs report opts = (report, tr opts)"
  by (simp add: resolveReports_def)

lemma resolve_index:
  "\<not> endsWith report ''.json'' \<Longrightarrow> \<not> exists fs (join [report, ''ed'']) \<Longrightarrow>
   resolveReports join fs report opts = (join [report, ''index.json''], tr opts)"
  by (simp add: resolveReports_def)

lemma resolve_ed_index:
  "\<not> endsWith report ''.json'' \<Longrightarrow> exists fs (join [report, ''ed'']) \<Longrightarrow>
   fst (resolveReports join fs report opts) = join [join [report, ''ed''], ''index.json'']"
  by (simp add: resolveReports_def Let_def)

lemma checkOptions_noOptions: "checkOptions noOptions = None"
  by (simp add: checkOptions_def noOptions_def truthyStr_def)

lemma posixJoin_examples:
  "posixJoin [''report'', ''ed''] = ''report/ed''"
  "posixJoin [''report'', ''index.json''] = ''report/index.json''"
  "posixJoin [''crawl'', ''ed''] = ''crawl/ed''"
  "posixJoin [''crawl'', ''index.json''] = ''crawl/index.json''"
  "posixJoin [''webref'', ''ed''] = ''webref/ed''"
  "posixJoin [''webref'', ''tr''] = ''webref/tr''"
  "posixJoin [''webref/ed'', ''index.json''] = ''webref/ed/index.json''"
  "posixJoin [''webref/tr'', ''index.json''] = ''webref/tr/index.json''"
  "posixJoin [''crawl.json'', ''index.json''] = ''crawl.json/index.json''"
  by (simp_all add: posixJoin_def normalize_def)

text \<open>
  C3, as stated, fails. A crawl report stored in a readable file named \<open>report\<close> is not
  used as it is: the command looks for \<open>report/index.json\<close> and gives up. A folder that has
  an \<open>ed\<close> subfolder is resolved to \<open>ed/index.json\<close> below it, not to its own
  \<open>index.json\<close>. The issue filer turns \<open>crawl.json\<close> into \<open>crawl.json/index.json\<close>.
\<close>

theorem report_location_counterexample:
  "exampleFs ''report'' = Some (RegFile crawlText) \<and>
   fst (resolveReports posixJoin exampleFs ''report'' noOptions) = ''report/index.json'' \<and>
   action exampleExternals exampleFs ''report'' noOptions =
     ([ErrorMsg ''Could not find/access crawl/study report: report''], Exit 2) \<and>
   exampleFs ''webref'' = Some Directory \<and>
   exists exampleFs ''webref/index.json'' \<and>
   fst (resolveReports posixJoin exampleFs ''webref'' noOptions) = ''webref/ed/index.json'' \<and>
   targetIndexFile posixJoin ''crawl.json'' = ''crawl.json/index.json''"
proof -
  have r: "resolveReports posixJoin exampleFs ''report'' noOptions = (''report/index.json'', None)"
    by (simp add: resolve_index endsWith_eval posixJoin_examples exists_def exampleFs_def noOptions_def)
  have "\<not> exists exampleFs ''report/index.json''"
    by (simp add: exists_def exampleFs_def)
  with r have a: "action exampleExternals exampleFs ''report'' noOptions =
     ([ErrorMsg ''Could not find/access crawl/study report: report''], Exit 2)"
    by (simp add: action_report_missing checkOptions_noOptions exampleExternals_def)
  have w: "fst (resolveReports posixJoin exampleFs ''webref'' noOptions) = ''webref/ed/index.json''"
    by (simp add: resolve_ed_index endsWith_eval posixJoin_examples exists_def exampleFs_def)
  have t: "targetIndexFile posixJoin ''crawl.json'' = ''crawl.json/index.json''"
    by (simp add: targetIndexFile_def endsWith_eval posixJoin_examples)
  from r a w t show ?thesis
    by (simp add: exampleFs_def exists_def)
qed

text \<open>
  C3, amended. The command decides by the name, not by what is on disk: a report argument
  that ends in \<open>.json\<close> is used as it is; any other argument is taken for a folder, and
  resolved to \<open>index.json\<close> in its \<open>ed\<close> subfolder when \<open>ed\<close> is accessible, to \<open>index.json\<close>
  in the folder itself otherwise. When the options are sound and the resolved files are
  accessible, that file is the first thing the action opens. The issue filer uses an
  argument that ends in \<open>index.json\<close> as it is and joins \<open>index.json\<close> to any other.
\<close>

theorem report_location_by_name:
  "(endsWith report ''.json'' \<longrightarrow>
      fst (resolveReports (path_join ext) fs report opts) = report) \<and>
   (\<not> endsWith report ''.json'' \<and> \<not> exists fs (path_join ext [report, ''ed'']) \<longrightarrow>
      fst (resolveReports (path_join ext) fs report opts) = path_join ext [report, ''index.json'']) \<and>
   (\<not> endsWith report ''.json'' \<and> exists fs (path_join ext [report, ''ed'']) \<longrightarrow>
      fst (resolveReports (path_join ext) fs report opts) =
        path_join ext [path_join ext [report, ''ed''], ''index.json'']) \<and>
   (checkOptions opts = None \<and>
    exists fs (fst (resolveReports (path_join ext) fs report opts)) \<and>
    (truthyStr (snd (resolveReports (path_join ext) fs report opts)) \<longrightarrow>
       exists fs (resolveTr (path_join ext) (the (snd (resolveReports (path_join ext) fs report opts))))) \<longrightarrow>
      (\<exists>rest. fst (action ext fs report opts) =
         CallIsStudyReport (fst (resolveReports (path_join ext) fs report opts)) # rest)) \<and>
   (endsWith p ''index.json'' \<longrightarrow> targetIndexFile join p = p) \<and>
   (\<not> endsWith p ''index.json'' \<longrightarrow> targetIndexFile join p = join [p, ''index.json''])"
proof (intro conjI impI)
  assume "endsWith report ''.json''"
  then show "fst (resolveReports (path_join ext) fs report opts) = report"
    by (simp add: resolve_as_is)
next
  assume "\<not> endsWith report ''.json'' \<and> \<not> exists fs (path_join ext [report, ''ed''])"
  then show "fst (resolveReports (path_join ext) fs report opts) = path_join ext [report, ''index.json'']"
    by (simp add: resolve_index)
next
  assume "\<not> endsWith report ''.json'' \<and> exists fs (path_join ext [report, ''ed''])"
  then show "fst (resolveReports (path_join ext) fs report opts) =
        path_join ext [path_join ext [report, ''ed''], ''index.json'']"
    by (simp add: resolve_ed_index)
next
  let ?r = "resolveReports (path_join ext) fs report opts"
  assume a: "checkOptions opts = None \<and> exists fs (fst ?r) \<and>
    (truthyStr (snd ?r) \<longrightarrow> exists fs (resolveTr (path_join ext) (the (snd ?r))))"
  then have a1: "checkOptions opts = None" and a2: "exists fs (fst ?r)"
    and a3: "truthyStr (snd ?r) \<longrightarrow> exists fs (resolveTr (path_join ext) (the (snd ?r)))"
    by blast+
  have "?r = (fst ?r, snd ?r)" by simp
  from action_produce [OF a1 this a2 a3]
  have "action ext fs report opts =
          produce ext fs opts (fst ?r)
            (if truthyStr (snd ?r) then Some (resolveTr (path_join ext) (the (snd ?r))) else snd ?r)" .
  then show "\<exists>rest. fst (action ext fs report opts) = CallIsStudyReport (fst ?r) # rest"
    by (simp only: produce_first)
next
  assume "endsWith p ''index.json''"
  then show "targetIndexFile join p = p"
    by (simp add: targetIndexFile_def)
next
  assume "\<not> endsWith p ''index.json''"
  then show "targetIndexFile join p = join [p, ''index.json'']"
    by (simp add: targetIndexFile_def)
qed

theorem report_location_by_name_witness:
  "endsWith ''study.json'' ''.json'' \<and>
   fst (resolveReports posixJoin exampleFs ''study.json'' noOptions) = ''study.json'' \<and>
   \<not> endsWith ''crawl'' ''.json'' \<and> \<not> exists exampleFs ''crawl/ed'' \<and>
   fst (resolveReports posixJoin exampleFs ''crawl'' noOptions) = ''crawl/index.json'' \<and>
   \<not> endsWith ''webref'' ''.json'' \<and> exists exampleFs ''webref/ed'' \<and>
   fst (resolveReports posixJoin exampleFs ''webref'' noOptions) = ''webref/ed/index.json'' \<and>
   checkOptions noOptions = None \<and> exists exampleFs ''crawl/index.json'' \<and>
   (\<exists>rest. fst (action exampleExternals exampleFs ''crawl'' noOptions) =
      CallIsStudyReport ''crawl/index.json'' # rest) \<and>
   endsWith ''crawl/index.json'' ''index.json'' \<and>
   targetIndexFile posixJoin ''crawl/index.json'' = ''crawl/index.json'' \<and>
   \<not> endsWith ''crawl'' ''index.json'' \<and>
   targetIndexFile posixJoin ''crawl'' = ''crawl/index.json''"
proof -
  have pj: "path_join exampleExternals = posixJoin"
    by (simp add: exampleExternals_def)
  have e: "endsWith ''study.json'' ''.json''" "\<not> endsWith ''crawl'' ''.json''"
    "\<not> endsWith ''webref'' ''.json''" "endsWith ''crawl/index.json'' ''index.json''"
    "\<not> endsWith ''crawl'' ''index.json''"
    by (simp_all add: endsWith_eval)
  have x: "\<not> exists exampleFs ''crawl/ed''" "exists exampleFs ''webref/ed''"
    "exists exampleFs ''crawl/index.json''"
    by (simp_all add: exists_def exampleFs_def)
  have s: "snd (resolveReports posixJoin exampleFs ''crawl'' noOptions) = None"
    using e x by (simp add: resolve_index posixJoin_examples noOptions_def)
  note w1 = report_location_by_name [of "''study.json''" exampleExternals exampleFs noOptions
              "''crawl/index.json''" posixJoin, unfolded pj]
  note w2 = report_location_by_name [of "''crawl''" exampleExternals exampleFs noOptions
              "''crawl''" posixJoin, unfolded pj]
  note w3 = report_location_by_name [of "''webref''" exampleExternals exampleFs noOptions
              "''crawl''" posixJoin, unfolded pj]
  from w1 e have 1: "fst (resolveReports posixJoin exampleFs ''study.json'' noOptions) = ''study.json''"
    and 5: "targetIndexFile posixJoin ''crawl/index.json'' = ''crawl/index.json''"
    by blast+
  from w2 e x have 2: "fst (resolveReports posixJoin exampleFs ''crawl'' noOptions) = ''crawl/index.json''"
    and 6: "targetIndexFile posixJoin ''crawl'' = ''crawl/index.json''"
    by (simp_all add: posixJoin_examples)
  from w3 e x have 3: "fst (resolveReports posixJoin exampleFs ''webref'' noOptions) = ''webref/ed/index.json''"
    by (simp add: posixJoin_examples)
  from w2 [THEN conjunct2, THEN conjunct2, THEN conjunct2, THEN conjunct1] 2 s x
  have 4: "\<exists>rest. fst (action exampleExternals exampleFs ''crawl'' noOptions) =
      CallIsStudyReport ''crawl/index.json'' # rest"
    by (simp add: checkOptions_noOptions truthyStr_def)
  from 1 2 3 4 5 6 e x show ?thesis
    by (simp add: checkOptions_noOptions)
qed

subsection \<open>Sniffing the report\<close>

lemma isStudyReport_file:
  "fs file = Some (RegFile content) \<Longrightarrow>
   isStudyReport fs file = Some (if markerWithin 1024 content then JTrue else JUndefined)"
  by (simp add: isStudyReport_def Let_def sniff_iff)

lemma isStudyReport_truncated:
  assumes "fs file = Some (RegFile content)"
  shows "isStudyReport (fs(file \<mapsto> RegFile (take 1024 content))) file = isStudyReport fs file"
proof -
  have "1024 - min (length content) 1024 = 1024 - length content" by simp
  with assms show ?thesis
    by (simp add: isStudyReport_def Let_def)
qed

lemma loadStudy_crawl:
  assumes "fs edReport = Some (RegFile content)" and "\<not> markerWithin 1024 content"
  shows "loadStudy ext fs opts edReport trReport =
           ([CallIsStudyReport edReport,
             CallStudyCrawl edReport \<lparr> include' = spec opts, trResults = trReport \<rparr>],
            studyCrawl ext edReport \<lparr> include' = spec opts, trResults = trReport \<rparr>)"
  using assms by (simp add: loadStudy_def isStudyReport_file truthy_def Let_def)

lemma loadStudy_reuse:
  assumes "fs edReport = Some (RegFile content)" and "markerWithin 1024 content"
    and "requireFromWorkingDirectory ext edReport = Some study"
  shows "loadStudy ext fs opts edReport trReport =
           ([CallIsStudyReport edReport, CallRequire edReport], Some study)"
  using assms by (simp add: loadStudy_def isStudyReport_file truthy_def Let_def)

lemma loadStudy_fallback:
  assumes "fs edReport = Some (RegFile content)" and "markerWithin 1024 content"
    and "requireFromWorkingDirectory ext edReport = None"
  shows "loadStudy ext fs opts edReport trReport =
           ([CallIsStudyReport edReport, CallRequire edReport,
             CallStudyCrawl edReport \<lparr> include' = spec opts, trResults = trReport \<rparr>],
            studyCrawl ext edReport \<lparr> include' = spec opts, trResults = trReport \<rparr>)"
  using assms by (simp add: loadStudy_def isStudyReport_file truthy_def Let_def)

lemma render_no_crawl: "\<not> list_ex isCrawlCall (fst (render ext opts study))"
  by (simp add: render_def Let_def split: option.splits)

lemma decode_spaces: "decodeFrom Idle (replicate n (CHR '' '') @ bs) = replicate n 32 @ decodeFrom Idle bs"
  by (induction n) (simp_all add: startByte_def)

lemma matchHere_space: "\<not> matchHere (32 # s)"
  by (simp add: matchHere_def codeUnits_def dq_def)

lemma regexSearch_spaces: "regexSearch (replicate n 32 @ s) = regexSearch s"
  by (induction n) (simp_all add: matchHere_space)

lemma isMarker_example:
  "isMarker (utf8Decode (dq # ''type'' @ [dq] @ '': '' @ [dq] @ ''study'' @ [dq]))"
  unfolding isMarker_def
  by (intro exI [of _ "[]"] exI [of _ "[32]"])
     (simp add: utf8Decode_def startByte_def dq_def codeUnits_def isWhiteSpace_def)

lemma studyText_split:
  "studyText = ''{'' @ (dq # ''type'' @ [dq] @ '': '' @ [dq] @ ''study'' @ [dq]) @ '', '' @ [dq] @ ''results'' @ [dq] @ '': []}''"
  by (simp add: studyText_def dq_def)

lemma markerWithin_studyText: "markerWithin 1024 studyText"
  unfolding markerWithin_def
  apply (rule exI [of _ "''{''"])
  apply (rule exI [of _ "dq # ''type'' @ [dq] @ '': '' @ [dq] @ ''study'' @ [dq]"])
  apply (rule exI [of _ "'', '' @ [dq] @ ''results'' @ [dq] @ '': []}''"])
  apply (intro conjI)
    apply (rule studyText_split)
   apply simp
  apply (rule isMarker_example)
  done

lemma regexSearch_append: "regexSearch (utf8Decode bs) \<Longrightarrow> regexSearch (utf8Decode (replicate n (CHR '' '') @ bs))"
  by (simp add: utf8Decode_def decode_spaces regexSearch_spaces)

lemma markerWithin_length:
  assumes "markerWithin n c"
  shows "markerWithin (length c) c"
proof -
  from assms obtain pre m post where c: "c = pre @ m @ post" and m: "isMarker (utf8Decode m)"
    unfolding markerWithin_def by blast
  from c have "length (pre @ m) \<le> length c" by simp
  with c m show ?thesis unfolding markerWithin_def by blast
qed

lemma regexSearch_whole: "markerWithin n c \<Longrightarrow> regexSearch (utf8Decode c)"
  using marker_found [of "length c" c "[]"] by (simp add: markerWithin_length)

lemma regexSearch_studyText: "regexSearch (utf8Decode studyText)"
  using markerWithin_studyText by (rule regexSearch_whole)

lemma sniff_lateStudyText:
  "\<not> regexSearch (utf8Decode (take 1024 lateStudyText @ replicate (1024 - length lateStudyText) (CHR 0x00)))"
proof -
  have "take 1024 lateStudyText = replicate 1024 (CHR '' '') @ []"
    by (simp add: lateStudyText_def)
  moreover have "1024 - length lateStudyText = 0"
    by (simp add: lateStudyText_def)
  ultimately have "utf8Decode (take 1024 lateStudyText @ replicate (1024 - length lateStudyText) (CHR 0x00))
      = replicate 1024 32 @ []"
    unfolding utf8Decode_def using decode_spaces [of 1024 "[]"] by simp
  then show ?thesis
    using regexSearch_spaces [of 1024 "[]"] by (simp add: matchHere_def codeUnits_def)
qed

lemma not_markerWithin_late: "\<not> markerWithin 1024 lateStudyText"
  using sniff_lateStudyText by (simp add: sniff_iff)

lemma sniff_straddling:
  "\<not> regexSearch (utf8Decode (take 1024 straddlingStudyText @
        replicate (1024 - length straddlingStudyText) (CHR 0x00)))"
proof -
  have t: "take 1024 straddlingStudyText = replicate 1010 (CHR '' '') @ take 14 studyText"
    by (simp add: straddlingStudyText_def)
  have l: "1024 - length straddlingStudyText = 0"
    by (simp add: straddlingStudyText_def studyText_def)
  have "regexSearch (utf8Decode (replicate 1010 (CHR '' '') @ take 14 studyText)) =
        regexSearch (utf8Decode (take 14 studyText))"
    by (simp add: utf8Decode_def decode_spaces regexSearch_spaces)
  moreover have "\<not> regexSearch (utf8Decode (take 14 studyText))"
    by (simp add: studyText_def utf8Decode_def startByte_def matchHere_def codeUnits_def dq_def
                  isWhiteSpace_def)
  ultimately show ?thesis
    by (simp add: t l)
qed

lemma not_markerWithin_straddling: "\<not> markerWithin 1024 straddlingStudyText"
  using sniff_straddling by (simp add: sniff_iff)


text \<open>
  C8. \<open>isStudyReport\<close> looks at the first 1024 bytes of the file and at nothing else. A
  regular file is classified as a study report exactly when a text matched by the pattern
  lies within its first 1024 bytes; in every other case the function returns nothing, and
  the action then calls \<open>studyCrawl\<close> on the file.
\<close>

theorem sniff_reads_first_1024_bytes:
  assumes "fs file = Some (RegFile content)"
  shows "isStudyReport fs file = Some (if markerWithin 1024 content then JTrue else JUndefined) \<and>
         isStudyReport (fs(file \<mapsto> RegFile (take 1024 content))) file = isStudyReport fs file \<and>
         (\<not> markerWithin 1024 content \<longrightarrow>
            loadStudy ext fs opts file trReport =
              ([CallIsStudyReport file,
                CallStudyCrawl file \<lparr> include' = spec opts, trResults = trReport \<rparr>],
               studyCrawl ext file \<lparr> include' = spec opts, trResults = trReport \<rparr>))"
proof (intro conjI impI)
  show "isStudyReport fs file = Some (if markerWithin 1024 content then JTrue else JUndefined)"
    using assms by (rule isStudyReport_file)
  show "isStudyReport (fs(file \<mapsto> RegFile (take 1024 content))) file = isStudyReport fs file"
    using assms by (rule isStudyReport_truncated)
next
  assume "\<not> markerWithin 1024 content"
  with assms show "loadStudy ext fs opts file trReport =
              ([CallIsStudyReport file,
                CallStudyCrawl file \<lparr> include' = spec opts, trResults = trReport \<rparr>],
               studyCrawl ext file \<lparr> include' = spec opts, trResults = trReport \<rparr>)"
    by (rule loadStudy_crawl)
qed

theorem sniff_reads_first_1024_bytes_witness:
  "exampleFs ''study.json'' = Some (RegFile studyText) \<and>
   markerWithin 1024 studyText \<and>
   isStudyReport exampleFs ''study.json'' = Some JTrue \<and>
   exampleFs ''late.json'' = Some (RegFile lateStudyText) \<and>
   regexSearch (utf8Decode lateStudyText) \<and>
   \<not> markerWithin 1024 lateStudyText \<and>
   isStudyReport exampleFs ''late.json'' = Some JUndefined \<and>
   exampleFs ''straddling.json'' = Some (RegFile straddlingStudyText) \<and>
   regexSearch (utf8Decode straddlingStudyText) \<and>
   \<not> markerWithin 1024 straddlingStudyText \<and>
   isStudyReport exampleFs ''straddling.json'' = Some JUndefined \<and>
   loadStudy exampleExternals exampleFs noOptions ''late.json'' None =
     ([CallIsStudyReport ''late.json'',
       CallStudyCrawl ''late.json'' \<lparr> include' = None, trResults = None \<rparr>],
      Some ''analysis of late.json'')"
proof -
  have s: "exampleFs ''study.json'' = Some (RegFile studyText)"
    and l: "exampleFs ''late.json'' = Some (RegFile lateStudyText)"
    by (simp_all add: exampleFs_def)
  have r: "regexSearch (utf8Decode lateStudyText)"
    unfolding lateStudyText_def using regexSearch_studyText by (rule regexSearch_append)
  have m: "exampleFs ''straddling.json'' = Some (RegFile straddlingStudyText)"
    by (simp add: exampleFs_def)
  have q: "regexSearch (utf8Decode straddlingStudyText)"
    unfolding straddlingStudyText_def using regexSearch_studyText by (rule regexSearch_append)
  from sniff_reads_first_1024_bytes [of exampleFs "''study.json''" studyText exampleExternals noOptions None]
       sniff_reads_first_1024_bytes [of exampleFs "''late.json''" lateStudyText exampleExternals noOptions None]
       sniff_reads_first_1024_bytes [of exampleFs "''straddling.json''" straddlingStudyText
         exampleExternals noOptions None]
       markerWithin_studyText not_markerWithin_late not_markerWithin_straddling s l r m q
  show ?thesis
    by (simp add: exampleExternals_def noOptions_def)
qed

lemma resolve_late: "resolveReports posixJoin exampleFs ''late.json'' noOptions = (''late.json'', None)"
  by (simp add: resolve_as_is endsWith_eval noOptions_def)

lemma resolve_study: "resolveReports posixJoin exampleFs ''study.json'' noOptions = (''study.json'', None)"
  by (simp add: resolve_as_is endsWith_eval noOptions_def)

lemma render_noOptions: "render ext noOptions study = ([LogMsg (stringify ext study)], Completed)"
  by (simp add: render_def noOptions_def truthyStr_def)

text \<open>
  C1, as stated, fails. The file \<open>late.json\<close> is a study report, and its content matches the
  pattern, but the match lies behind 1024 spaces: the action does not load the file as the
  study and calls \<open>studyCrawl\<close> on it.
\<close>

theorem late_marker_counterexample:
  "exampleFs ''late.json'' = Some (RegFile lateStudyText) \<and>
   regexSearch (utf8Decode lateStudyText) \<and>
   action exampleExternals exampleFs ''late.json'' noOptions =
     ([CallIsStudyReport ''late.json'',
       CallStudyCrawl ''late.json'' \<lparr> include' = None, trResults = None \<rparr>,
       LogMsg ''analysis of late.json''],
      Completed)"
proof -
  have l: "exampleFs ''late.json'' = Some (RegFile lateStudyText)"
    by (simp add: exampleFs_def)
  have r: "regexSearch (utf8Decode lateStudyText)"
    unfolding lateStudyText_def using regexSearch_studyText by (rule regexSearch_append)
  have pj: "path_join exampleExternals = posixJoin"
    by (simp add: exampleExternals_def)
  have "action exampleExternals exampleFs ''late.json'' noOptions =
          produce exampleExternals exampleFs noOptions ''late.json'' None"
    using action_produce [of noOptions exampleExternals exampleFs "''late.json''" "''late.json''" None] l
    by (simp add: checkOptions_noOptions pj resolve_late exists_def truthyStr_def)
  also have "\<dots> = ([CallIsStudyReport ''late.json'',
       CallStudyCrawl ''late.json'' \<lparr> include' = None, trResults = None \<rparr>,
       LogMsg ''analysis of late.json''], Completed)"
    using loadStudy_crawl [of exampleFs "''late.json''" lateStudyText exampleExternals noOptions None]
          l not_markerWithin_late
    by (simp add: produce_def render_noOptions exampleExternals_def)
       (simp add: noOptions_def)
  finally show ?thesis using l r by simp
qed

lemma produce_crawl_called:
  assumes "fst (loadStudy ext fs opts edReport trReport) = ev" and "list_ex isCrawlCall ev"
  shows "list_ex isCrawlCall (fst (produce ext fs opts edReport trReport))"
proof -
  obtain study where l: "loadStudy ext fs opts edReport trReport = (ev, study)"
    using assms(1) by (cases "loadStudy ext fs opts edReport trReport") auto
  show ?thesis
  proof (cases study)
    case None
    with l assms(2) show ?thesis by (simp add: produce_def)
  next
    case (Some s)
    with l assms(2) show ?thesis
      by (cases "render ext opts s") (simp add: produce_def)
  qed
qed

text \<open>
  C1, amended. Let the options be sound and the report and the optional TR report be
  accessible, the report being a regular file. When a text matched by the pattern lies
  within the first 1024 bytes of the file and \<open>requireFromWorkingDirectory\<close> yields a study,
  the action works on that study and does not call \<open>studyCrawl\<close>. When no such text lies
  within the first 1024 bytes, wherever else in the file one may be, or when
  \<open>requireFromWorkingDirectory\<close> yields no study, the action calls \<open>studyCrawl\<close>.
\<close>

theorem study_reused_when_sniffed:
  assumes "checkOptions opts = None"
    and "resolveReports (path_join ext) fs report opts = (edReport, trReport)"
    and "fs edReport = Some (RegFile content)"
    and "truthyStr trReport \<longrightarrow> exists fs (resolveTr (path_join ext) (the trReport))"
  shows "(markerWithin 1024 content \<and> requireFromWorkingDirectory ext edReport = Some study \<longrightarrow>
            action ext fs report opts =
              ([CallIsStudyReport edReport, CallRequire edReport] @ fst (render ext opts study),
               snd (render ext opts study)) \<and>
            \<not> list_ex isCrawlCall (fst (action ext fs report opts))) \<and>
         (\<not> markerWithin 1024 content \<or> requireFromWorkingDirectory ext edReport = None \<longrightarrow>
            list_ex isCrawlCall (fst (action ext fs report opts)))"
proof -
  let ?tr = "if truthyStr trReport then Some (resolveTr (path_join ext) (the trReport)) else trReport"
  from assms(3) have "exists fs edReport" by (simp add: exists_def)
  from action_produce [OF assms(1,2) this assms(4)]
  have a: "action ext fs report opts = produce ext fs opts edReport ?tr" .
  show ?thesis
  proof (intro conjI impI)
    assume h: "markerWithin 1024 content \<and> requireFromWorkingDirectory ext edReport = Some study"
    then have "loadStudy ext fs opts edReport ?tr =
                 ([CallIsStudyReport edReport, CallRequire edReport], Some study)"
      using assms(3) by (simp add: loadStudy_reuse)
    then show e: "action ext fs report opts =
              ([CallIsStudyReport edReport, CallRequire edReport] @ fst (render ext opts study),
               snd (render ext opts study))"
      unfolding a by (cases "render ext opts study") (simp add: produce_def)
    show "\<not> list_ex isCrawlCall (fst (action ext fs report opts))"
      unfolding e using render_no_crawl [of ext opts study] by simp
  next
    assume h: "\<not> markerWithin 1024 content \<or> requireFromWorkingDirectory ext edReport = None"
    have "list_ex isCrawlCall (fst (loadStudy ext fs opts edReport ?tr))"
    proof (cases "markerWithin 1024 content")
      case False
      with assms(3) show ?thesis by (simp add: loadStudy_crawl)
    next
      case True
      with h assms(3) show ?thesis by (simp add: loadStudy_fallback)
    qed
    then show "list_ex isCrawlCall (fst (action ext fs report opts))"
      unfolding a by (rule produce_crawl_called [OF refl])
  qed
qed

theorem study_reused_when_sniffed_witness:
  "checkOptions noOptions = None \<and>
   exampleFs ''study.json'' = Some (RegFile studyText) \<and>
   markerWithin 1024 studyText \<and>
   requireFromWorkingDirectory exampleExternals ''study.json'' = Some ''loaded from study.json'' \<and>
   action exampleExternals exampleFs ''study.json'' noOptions =
     ([CallIsStudyReport ''study.json'', CallRequire ''study.json'', LogMsg ''loaded from study.json''],
      Completed) \<and>
   \<not> list_ex isCrawlCall (fst (action exampleExternals exampleFs ''study.json'' noOptions)) \<and>
   exampleFs ''late.json'' = Some (RegFile lateStudyText) \<and>
   \<not> markerWithin 1024 lateStudyText \<and>
   list_ex isCrawlCall (fst (action exampleExternals exampleFs ''late.json'' noOptions))"
proof -
  have pj: "path_join exampleExternals = posixJoin"
    by (simp add: exampleExternals_def)
  have s: "exampleFs ''study.json'' = Some (RegFile studyText)"
    and l: "exampleFs ''late.json'' = Some (RegFile lateStudyText)"
    by (simp_all add: exampleFs_def)
  have q: "requireFromWorkingDirectory exampleExternals ''study.json'' = Some ''loaded from study.json''"
    by (simp add: exampleExternals_def)
  have t: "truthyStr None \<longrightarrow> exists exampleFs (resolveTr (path_join exampleExternals) (the None))"
    by (simp add: truthyStr_def)
  note w1 = study_reused_when_sniffed [where opts = noOptions and ext = exampleExternals
              and fs = exampleFs and report = "''study.json''" and edReport = "''study.json''"
              and trReport = None and content = studyText and study = "''loaded from study.json''",
              OF checkOptions_noOptions resolve_study [folded pj] s t]
  note w2 = study_reused_when_sniffed [where opts = noOptions and ext = exampleExternals
              and fs = exampleFs and report = "''late.json''" and edReport = "''late.json''"
              and trReport = None and content = lateStudyText and study = "''loaded from study.json''",
              OF checkOptions_noOptions resolve_late [folded pj] l t]
  from w1 markerWithin_studyText q
  have 1: "action exampleExternals exampleFs ''study.json'' noOptions =
     ([CallIsStudyReport ''study.json'', CallRequire ''study.json'', LogMsg ''loaded from study.json''],
      Completed)"
    and 2: "\<not> list_ex isCrawlCall (fst (action exampleExternals exampleFs ''study.json'' noOptions))"
    by (simp_all add: render_noOptions) (simp add: exampleExternals_def)
  from w2 not_markerWithin_late
  have 3: "list_ex isCrawlCall (fst (action exampleExternals exampleFs ''late.json'' noOptions))"
    by blast
  from 1 2 3 s l q markerWithin_studyText not_markerWithin_late checkOptions_noOptions
  show ?thesis by simp
qed

section \<open>Properties of the diff and of the output form\<close>

lemma render_report_options:
  "truthyStr (diff opts) \<Longrightarrow>
   \<exists>rest. fst (render ext opts study) =
     CallGenerateReport study (ReportOptions (dep opts) True (diff opts) (onlynew opts)) # rest"
  by (simp add: render_def Let_def split: option.splits)

text \<open>
  C6. With \<open>onlyNew\<close> set, every entry of the diff has an empty \<open>removed\<close> list, whatever
  the two study results are. (The command hands \<open>--onlynew\<close> over to \<open>generateReport\<close> as
  \<open>onlyNew\<close>, together with the reference study, whenever \<open>--diff\<close> has a value.)
\<close>

theorem only_new_diff_has_no_removed:
  "(\<forall>e \<in> set (Diff reference candidate True). removed (snd e) = []) \<and>
   (truthyStr (diff opts) \<longrightarrow>
      (\<exists>rest. fst (render ext opts study) =
         CallGenerateReport study (ReportOptions (dep opts) True (diff opts) (onlynew opts)) # rest))"
proof
  show "\<forall>e \<in> set (Diff reference candidate True). removed (snd e) = []"
    by (auto simp: Diff_def)
  show "truthyStr (diff opts) \<longrightarrow>
      (\<exists>rest. fst (render ext opts study) =
         CallGenerateReport study (ReportOptions (dep opts) True (diff opts) (onlynew opts)) # rest)"
    by (simp add: render_report_options)
qed

theorem only_new_diff_has_no_removed_witness:
  "Diff referenceStudy candidateStudy False =
     [(''dom'',
       \<lparr> added = [\<lparr> owner = ''dom'', anomaly = BrokenLink ''https://url.spec.whatwg.org/#no-such-anchor'' \<rparr>],
         removed = [\<lparr> owner = ''dom'', anomaly = StaleLink ''https://www.w3.org/TR/html52/#gone'' True \<rparr>] \<rparr>)] \<and>
   Diff referenceStudy candidateStudy True =
     [(''dom'',
       \<lparr> added = [\<lparr> owner = ''dom'', anomaly = BrokenLink ''https://url.spec.whatwg.org/#no-such-anchor'' \<rparr>],
         removed = [] \<rparr>)] \<and>
   list_all (\<lambda>e. removed (snd e) = []) (Diff referenceStudy candidateStudy True) \<and>
   truthyStr (diff (noOptions\<lparr>diff := Some ''ref.json'', onlynew := True\<rparr>)) \<and>
   fst (render exampleExternals (noOptions\<lparr>diff := Some ''ref.json'', onlynew := True\<rparr>) ''the study'') =
     [CallGenerateReport ''the study'' (ReportOptions False True (Some ''ref.json'') True),
      LogMsg ''report on the study'']"
proof -
  have f: "Diff referenceStudy candidateStudy False =
     [(''dom'',
       \<lparr> added = [\<lparr> owner = ''dom'', anomaly = BrokenLink ''https://url.spec.whatwg.org/#no-such-anchor'' \<rparr>],
         removed = [\<lparr> owner = ''dom'', anomaly = StaleLink ''https://www.w3.org/TR/html52/#gone'' True \<rparr>] \<rparr>)]"
    by (simp add: Diff_def referenceStudy_def candidateStudy_def missingFrom_def anomaliesOf_def
                  sameAnomaly_def)
  have t: "Diff referenceStudy candidateStudy True =
     [(''dom'',
       \<lparr> added = [\<lparr> owner = ''dom'', anomaly = BrokenLink ''https://url.spec.whatwg.org/#no-such-anchor'' \<rparr>],
         removed = [] \<rparr>)]"
    by (simp add: Diff_def referenceStudy_def candidateStudy_def missingFrom_def anomaliesOf_def
                  sameAnomaly_def)
  have d: "truthyStr (diff (noOptions\<lparr>diff := Some ''ref.json'', onlynew := True\<rparr>))"
    by (simp add: truthyStr_def)
  have r: "fst (render exampleExternals (noOptions\<lparr>diff := Some ''ref.json'', onlynew := True\<rparr>) ''the study'') =
     [CallGenerateReport ''the study'' (ReportOptions False True (Some ''ref.json'') True),
      LogMsg ''report on the study'']"
    by (simp add: render_def truthyStr_def exampleExternals_def noOptions_def)
  from only_new_diff_has_no_removed [of referenceStudy candidateStudy
         "noOptions\<lparr>diff := Some ''ref.json'', onlynew := True\<rparr>" exampleExternals "''the study''"]
  have "list_all (\<lambda>e. removed (snd e) = []) (Diff referenceStudy candidateStudy True)"
    unfolding list_all_iff by blast
  with f t d r show ?thesis by blast
qed

lemma issueReport_cong:
  "title v = title v' \<Longrightarrow> repo v = repo v' \<Longrightarrow> crawled v = crawled v' \<Longrightarrow>
   issueReport v links = issueReport v' links"
  by (simp add: issueReport_def)

lemma keptBrokenLinks_cong: "brokenLinks v = brokenLinks v' \<Longrightarrow> keptBrokenLinks v = keptBrokenLinks v'"
  by (simp add: keptBrokenLinks_def)

text \<open>
  C7. Every value of the output form of a study result carries the title, the repository
  and the crawled URL of its specification, and its anomalies by kind as lists of the
  literal targets. The draft the issue filer renders for a value is determined by
  \<open>title\<close>, \<open>repo\<close>, \<open>crawled\<close> and \<open>brokenLinks\<close> alone: two values that agree on these four
  give the same draft, whatever else they hold.
\<close>

theorem study_value_exposes_fields:
  "(\<forall>e \<in> set (outputOf study).
      \<exists>s. (fst e, s) \<in> set study \<and>
          title (snd e) = Some (summaryTitle s) \<and>
          repo (snd e) = Some (sourceRepository s) \<and>
          crawled (snd e) = Some (crawledUrl s) \<and>
          brokenLinks (snd e) = Some (List.map_filter brokenTarget (anomalyRecords s)) \<and>
          staleLinks (snd e) = Some (List.map_filter staleTarget (anomalyRecords s)) \<and>
          duplicateDefinitions (snd e) = Some (List.map_filter duplicateTarget (anomalyRecords s))) \<and>
   (title v = title v' \<and> repo v = repo v' \<and> crawled v = crawled v' \<and> brokenLinks v = brokenLinks v' \<longrightarrow>
      issueReport v (keptBrokenLinks v) = issueReport v' (keptBrokenLinks v'))"
proof (intro conjI ballI impI)
  fix e
  assume "e \<in> set (outputOf study)"
  then obtain k s where "(k, s) \<in> set study" and "e = (k, exposed k s)"
    by (auto simp: outputOf_def)
  then show "\<exists>s. (fst e, s) \<in> set study \<and>
          title (snd e) = Some (summaryTitle s) \<and>
          repo (snd e) = Some (sourceRepository s) \<and>
          crawled (snd e) = Some (crawledUrl s) \<and>
          brokenLinks (snd e) = Some (List.map_filter brokenTarget (anomalyRecords s)) \<and>
          staleLinks (snd e) = Some (List.map_filter staleTarget (anomalyRecords s)) \<and>
          duplicateDefinitions (snd e) = Some (List.map_filter duplicateTarget (anomalyRecords s))"
    by (intro exI [of _ s]) (simp add: exposed_def)
next
  assume a: "title v = title v' \<and> repo v = repo v' \<and> crawled v = crawled v' \<and> brokenLinks v = brokenLinks v'"
  then have t: "title v = title v'" and r: "repo v = repo v'" and c: "crawled v = crawled v'"
    and b: "brokenLinks v = brokenLinks v'"
    by blast+
  from b have k: "keptBrokenLinks v = keptBrokenLinks v'"
    by (rule keptBrokenLinks_cong)
  from t r c have "issueReport v (keptBrokenLinks v') = issueReport v' (keptBrokenLinks v')"
    by (rule issueReport_cong)
  then show "issueReport v (keptBrokenLinks v) = issueReport v' (keptBrokenLinks v')"
    by (simp only: k)
qed

theorem study_value_exposes_fields_witness:
  "outputOf candidateStudy =
     [(''dom'',
       \<lparr> shortname = Some ''dom'',
         title = Some ''DOM Standard'',
         repo = Some ''https://github.com/whatwg/dom'',
         crawled = Some ''https://dom.spec.whatwg.org/'',
         brokenLinks = Some [''https://w3c.github.io/DOM-Parsing/#dfn-createcontextualfragment-fragment'',
                             ''https://url.spec.whatwg.org/#no-such-anchor''],
         staleLinks = Some [],
         duplicateDefinitions = Some [] \<rparr>)] \<and>
   list_all (\<lambda>e. title (snd e) = Some ''DOM Standard'') (outputOf candidateStudy) \<and>
   title (exposed ''dom'' (snd (hd referenceStudy))) = title domResult \<and>
   repo (exposed ''dom'' (snd (hd referenceStudy))) = repo domResult \<and>
   crawled (exposed ''dom'' (snd (hd referenceStudy))) = crawled domResult \<and>
   brokenLinks (exposed ''dom'' (snd (hd referenceStudy))) = brokenLinks domResult \<and>
   issueReport (exposed ''dom'' (snd (hd referenceStudy)))
       (keptBrokenLinks (exposed ''dom'' (snd (hd referenceStudy)))) =
     issueReport domResult (keptBrokenLinks domResult)"
proof -
  let ?v = "exposed ''dom'' (snd (hd referenceStudy))"
  have o: "outputOf candidateStudy =
     [(''dom'',
       \<lparr> shortname = Some ''dom'',
         title = Some ''DOM Standard'',
         repo = Some ''https://github.com/whatwg/dom'',
         crawled = Some ''https://dom.spec.whatwg.org/'',
         brokenLinks = Some [''https://w3c.github.io/DOM-Parsing/#dfn-createcontextualfragment-fragment'',
                             ''https://url.spec.whatwg.org/#no-such-anchor''],
         staleLinks = Some [],
         duplicateDefinitions = Some [] \<rparr>)]"
    by (simp add: outputOf_def candidateStudy_def exposed_def List.map_filter_simps)
  have a: "title ?v = title domResult" "repo ?v = repo domResult" "crawled ?v = crawled domResult"
    "brokenLinks ?v = brokenLinks domResult"
    by (simp_all add: exposed_def referenceStudy_def domResult_def List.map_filter_simps)
  note w = study_value_exposes_fields [of candidateStudy ?v domResult]
  from w o have 1: "list_all (\<lambda>e. title (snd e) = Some ''DOM Standard'') (outputOf candidateStudy)"
    by simp
  from w a have 2: "issueReport ?v (keptBrokenLinks ?v) = issueReport domResult (keptBrokenLinks domResult)"
    by blast
  from o 1 2 a show ?thesis by simp
qed

end
